theory Spec2Isabelle
  imports Main
begin

section \<open>Data model of the frame pipeline (vulkanApp.cpp)\<close>

text \<open>
  Vulkan handles (\<^verbatim>\<open>vk::Semaphore\<close>, \<^verbatim>\<open>vk::Fence\<close>, \<^verbatim>\<open>vk::CommandBuffer\<close>,
  \<^verbatim>\<open>vk::Framebuffer\<close>) are opaque numbers; the default-constructed handle
  (\<^verbatim>\<open>vk::Semaphore()\<close>), which converts to \<^verbatim>\<open>false\<close>, is \<open>0\<close>.
\<close>

type_synonym handle = nat

text \<open>One element of \<^verbatim>\<open>pendingUpdates\<close>: the arguments of one \<^verbatim>\<open>updateBuffer\<close>.\<close>

record pending_update =
  upd_buffer :: handle
  upd_offset :: nat
  upd_size :: nat
  upd_data :: nat

text \<open>
  The bodies of the closures that the code pushes on \<^verbatim>\<open>context.dumpster\<close> and
  \<^verbatim>\<open>context.recycler\<close>: \<^verbatim>\<open>swapChain.clearSubmitFence(i)\<close>,
  \<^verbatim>\<open>device.destroySemaphore(s)\<close>, \<^verbatim>\<open>device.freeCommandBuffers(cmdPool, bufs)\<close>.
  A closure is the list of the calls it makes, in order.
\<close>

datatype cleanup =
  ClearSubmitFence nat
| DestroySemaphore handle
| FreeCommandBuffers "handle list"

type_synonym closure = "cleanup list"

datatype level = Primary | Secondary

text \<open>What the destructor releases besides command buffers and semaphores.\<close>

datatype resource =
  SwapChain
| DescriptorPool handle
| RenderPass
| Framebuffer handle
| ShaderModule handle
| DepthStencil
| TextureLoader
| TextOverlay
| Context

datatype usage = NoUsage | OneTimeSubmit | RenderPassContinueSimultaneousUse

datatype stage = SubmitPipelineStages | StageTransfer | StageAllCommands

record submit_info =
  waitSemaphores :: "handle list"
  waitDstStageMask :: "stage list"
  signalSemaphores :: "handle list"
  commandBuffers :: "handle list"

text \<open>
  Every call that leaves the application (device, queue, command buffer, swap chain, SDL)
  is logged, in program order, in the field \<open>trace\<close> of the state. The last argument
  of \<open>CmdBegin\<close> is the framebuffer of the inheritance info (\<open>0\<close>: none);
  \<open>CmdContent\<close> is one command recorded by the draw callback.
\<close>

datatype event =
  QueueWaitIdle
| DeviceWaitIdle
| CreateSemaphore handle
| CreateFence handle
| AllocateCommandBuffers level "handle list"
| CmdReset handle
| CmdBegin handle usage handle
| CmdContent handle nat
| CmdUpdateBuffer handle pending_update
| CmdBeginRenderPass handle handle
| CmdExecuteCommands handle handle
| CmdEndRenderPass handle
| CmdEnd handle
| QueueSubmit submit_info handle
| Executed cleanup
| ResetFence handle
| AcquireNextImage handle
| QueuePresent handle
| SDLDestroyWindow
| SDLQuit
| Released resource

datatype error =
  RuntimeError string
| AssertionFailed
| OutOfRange
| External nat

record app =
  quit :: bool
  prepared :: bool
  imageCount :: nat
  framebuffers :: "handle list"
  shaderModules :: "handle list"
  descriptorPool :: handle
  textureLoader :: bool
  currentBuffer :: nat
  drawCmdBuffers :: "handle list"
  textCmdBuffers :: "handle list"
  primaryCmdBuffers :: "handle list"
  primaryCmdBuffersDirty :: bool
  enableTextOverlay :: bool
  textOverlayVisible :: bool
  acquireComplete :: handle
  renderComplete :: handle
  transferComplete :: handle
  pendingUpdates :: "pending_update list"
  dumpster :: "closure list"
  recycler :: "(handle \<times> closure) list"
  handleCounter :: nat
  trace :: "event list"

text \<open>
  A call either returns with the new state, or stops (an exception, a failed
  \<^verbatim>\<open>assert\<close>, an index outside a vector) in the state reached so far.
\<close>

type_synonym outcome = "(error \<times> app) + app"

definition emit :: "event list \<Rightarrow> app \<Rightarrow> app" where
  "emit es st = st\<lparr>trace := trace st @ es\<rparr>"

subsection \<open>Device calls\<close>

text \<open>
  \<^verbatim>\<open>device.createSemaphore\<close>, \<^verbatim>\<open>device.createFence\<close> and
  \<^verbatim>\<open>device.allocateCommandBuffers\<close> return handles never returned before and
  different from the null handle.
\<close>

definition createSemaphore :: "app \<Rightarrow> handle \<times> app" where
  "createSemaphore st =
     (let h = Suc (handleCounter st)
      in (h, emit [CreateSemaphore h] (st\<lparr>handleCounter := h\<rparr>)))"

definition createFence :: "app \<Rightarrow> handle \<times> app" where
  "createFence st =
     (let h = Suc (handleCounter st)
      in (h, emit [CreateFence h] (st\<lparr>handleCounter := h\<rparr>)))"

definition allocateCommandBuffers :: "level \<Rightarrow> nat \<Rightarrow> app \<Rightarrow> handle list \<times> app" where
  "allocateCommandBuffers lv n st =
     (let hs = map (\<lambda>i. handleCounter st + Suc i) [0..<n]
      in (hs, emit [AllocateCommandBuffers lv hs] (st\<lparr>handleCounter := handleCounter st + n\<rparr>)))"

subsection \<open>The deferred resource reclaimer (\<^verbatim>\<open>context\<close>)\<close>

text \<open>
  Modelled from the spec: \<^verbatim>\<open>Context::trashCommandBuffers\<close> is not among the sources.
  Spec 4.3: "trash(resources): appends resources scheduled for destruction on the next
  fence checkpoint, not immediately". The closure that frees the buffers is appended to
  the dumpster and no device call is made; an empty vector holds no resource. The
  caller's vector is left as it is (spec 4.2: the primary buffers are allocated once, "or
  reuses the existing allocation").
\<close>

definition trashCommandBuffers :: "handle list \<Rightarrow> app \<Rightarrow> app" where
  "trashCommandBuffers bufs st =
     (if bufs = [] then st else st\<lparr>dumpster := dumpster st @ [[FreeCommandBuffers bufs]]\<rparr>)"

text \<open>
  Modelled from the spec: \<^verbatim>\<open>Context::emptyDumpster\<close> is not among the sources.
  Spec 4.3: "emptyDumpster(fence): associates the currently queued dumpster entries with
  the fence that will guard the upcoming submission; moves them into the reclaim queue".
\<close>

definition emptyDumpster :: "handle \<Rightarrow> app \<Rightarrow> app" where
  "emptyDumpster fence st =
     st\<lparr>recycler := recycler st @ [(fence, concat (dumpster st))], dumpster := []\<rparr>"

text \<open>
  Modelled from the spec: \<^verbatim>\<open>Context::recycle\<close> is not among the sources.
  Spec 4.3: "recycle(): scans the reclaim queue; for each entry whose guarding fence is
  signaled, runs its cleanup closure and removes the fence from further consideration,
  then resets the fence for reuse". The status that the device reports for a fence is the
  argument \<open>signaled\<close>. \<open>recycleScan\<close> returns the calls made and the entries kept.
\<close>

fun recycleScan ::
  "(handle \<Rightarrow> bool) \<Rightarrow> (handle \<times> closure) list \<Rightarrow> event list \<times> (handle \<times> closure) list" where
  "recycleScan signaled [] = ([], [])"
| "recycleScan signaled ((fence, c) # q) =
     (let (es, kept) = recycleScan signaled q
      in if signaled fence then (map Executed c @ [ResetFence fence] @ es, kept)
         else (es, (fence, c) # kept))"

definition recycle :: "(handle \<Rightarrow> bool) \<Rightarrow> app \<Rightarrow> app" where
  "recycle signaled st =
     (let (es, kept) = recycleScan signaled (recycler st)
      in emit es (st\<lparr>recycler := kept\<rparr>))"

subsection \<open>The pending-transfer queue\<close>

text \<open>
  \<^verbatim>\<open>vulkanApp::executePendingTransfers\<close>. The two \<^verbatim>\<open>assert\<close>s stop the program
  when they fail. The command buffer is element 0 of a vector allocated with
  \<^verbatim>\<open>commandBufferCount = 1\<close>.
\<close>

definition executePendingTransfers :: "handle \<Rightarrow> app \<Rightarrow> outcome" where
  "executePendingTransfers transferPending st =
     (if pendingUpdates st \<noteq> [] then
        (let (transferFence, st1) = createFence st;
             (sem, st2) = createSemaphore st1;
             st3 = st2\<lparr>transferComplete := sem\<rparr>
         in if transferPending = 0 then Inl (AssertionFailed, st3)
            else if transferComplete st3 = 0 then Inl (AssertionFailed, st3)
            else
              (let (bufs, st4) = allocateCommandBuffers Primary 1 st3
               in case bufs of
                    [] \<Rightarrow> Inl (OutOfRange, st4)
                  | transferCmdBuffer # _ \<Rightarrow>
                      (let st5 = emit ([CmdBegin transferCmdBuffer OneTimeSubmit 0]
                                       @ map (CmdUpdateBuffer transferCmdBuffer) (pendingUpdates st4)
                                       @ [CmdEnd transferCmdBuffer]) st4;
                           transferSubmitInfo =
                             \<lparr>waitSemaphores = [transferPending],
                              waitDstStageMask = [StageAllCommands],
                              signalSemaphores = [transferComplete st5],
                              commandBuffers = [transferCmdBuffer]\<rparr>;
                           st6 = emit [QueueSubmit transferSubmitInfo transferFence] st5;
                           st7 = st6\<lparr>recycler := recycler st6 @
                                   [(transferFence,
                                     [DestroySemaphore transferPending,
                                      FreeCommandBuffers [transferCmdBuffer]])]\<rparr>
                       in Inr (st7\<lparr>pendingUpdates := []\<rparr>))))
      else Inr st)"

subsection \<open>Submitting a frame\<close>

text \<open>
  \<^verbatim>\<open>vulkanApp::drawCurrentCommandBuffer\<close>. \<open>fence\<close> is what
  \<^verbatim>\<open>swapChain.getSubmitFence()\<close> returns (the swap chain is not among the sources) and
  \<open>signaled\<close> is the fence status that the device reports during \<^verbatim>\<open>recycle\<close>.
  \<^verbatim>\<open>&primaryCmdBuffers[currentBuffer]\<close> outside the vector stops the call.
\<close>

definition drawCurrentCommandBuffer ::
  "handle \<Rightarrow> handle \<Rightarrow> (handle \<Rightarrow> bool) \<Rightarrow> app \<Rightarrow> outcome" where
  "drawCurrentCommandBuffer semaphore fence signaled st =
     (let fenceIndex = currentBuffer st;
          st1 = st\<lparr>dumpster := dumpster st @ [[ClearSubmitFence fenceIndex]]\<rparr>;
          waitSemaphores0 = [if semaphore = 0 then acquireComplete st1 else semaphore];
          waitStages0 = [SubmitPipelineStages];
          (waitSems, waitStages, st2) =
            (if transferComplete st1 \<noteq> 0 then
               (let tc = transferComplete st1;
                    s = st1\<lparr>transferComplete := 0\<rparr>
                in (waitSemaphores0 @ [tc], waitStages0 @ [StageTransfer],
                    s\<lparr>dumpster := dumpster s @ [[DestroySemaphore tc]]\<rparr>))
             else (waitSemaphores0, waitStages0, st1));
          st3 = emptyDumpster fence st2;
          (transferPending, signalSems, st4) =
            (if pendingUpdates st3 \<noteq> [] then
               (let (h, s) = createSemaphore st3
                in (h, [renderComplete s, h], s))
             else (0, [renderComplete st3], st3))
      in if length (primaryCmdBuffers st4) < 1 then Inr st4
         else if \<not> currentBuffer st4 < length (primaryCmdBuffers st4) then Inl (OutOfRange, st4)
         else
           (let submitInfo =
                  \<lparr>waitSemaphores = waitSems,
                   waitDstStageMask = waitStages,
                   signalSemaphores = signalSems,
                   commandBuffers = [primaryCmdBuffers st4 ! currentBuffer st4]\<rparr>;
                st5 = emit [QueueSubmit submitInfo fence] st4
            in case executePendingTransfers transferPending st5 of
                 Inl e \<Rightarrow> Inl e
               | Inr st6 \<Rightarrow> Inr (recycle signaled st6)))"

subsection \<open>Recording command buffers\<close>

text \<open>
  \<^verbatim>\<open>vulkanApp::populateSubCommandBuffers\<close>. The vector passed by reference is given
  by its getter and setter; the callback \<open>f\<close> yields the commands it records into the
  buffer, and may read \<^verbatim>\<open>currentBuffer\<close>, which the loop sets for it.
\<close>

fun populateLoop ::
  "(nat \<Rightarrow> handle \<Rightarrow> nat list) \<Rightarrow> handle list \<Rightarrow> nat list \<Rightarrow> app \<Rightarrow> outcome" where
  "populateLoop f cmdBuffers [] st = Inr st"
| "populateLoop f cmdBuffers (i # is) st =
     (let st1 = st\<lparr>currentBuffer := i\<rparr>
      in if \<not> i < length (framebuffers st1) then Inl (OutOfRange, st1)
         else if \<not> i < length cmdBuffers then Inl (OutOfRange, st1)
         else
           (let cmdBuffer = cmdBuffers ! i;
                st2 = emit ([CmdReset cmdBuffer,
                             CmdBegin cmdBuffer RenderPassContinueSimultaneousUse (framebuffers st1 ! i)]
                            @ map (CmdContent cmdBuffer) (f (currentBuffer st1) cmdBuffer)
                            @ [CmdEnd cmdBuffer]) st1
            in populateLoop f cmdBuffers is st2))"

definition populateSubCommandBuffers ::
  "(app \<Rightarrow> handle list) \<Rightarrow> (handle list \<Rightarrow> app \<Rightarrow> app) \<Rightarrow>
   (nat \<Rightarrow> handle \<Rightarrow> nat list) \<Rightarrow> app \<Rightarrow> outcome" where
  "populateSubCommandBuffers getBufs setBufs f st =
     (let st1 = (if getBufs st \<noteq> [] then trashCommandBuffers (getBufs st) st else st);
          (bufs, st2) = allocateCommandBuffers Secondary (imageCount st1) st1;
          st3 = setBufs bufs st2
      in case populateLoop f bufs [0..<imageCount st3] st3 of
           Inl e \<Rightarrow> Inl e
         | Inr st4 \<Rightarrow> Inr (st4\<lparr>currentBuffer := 0\<rparr>))"

text \<open>\<^verbatim>\<open>vulkanApp::updateDrawCommandBuffers\<close>; \<open>f\<close> is \<^verbatim>\<open>updateDrawCommandBuffer\<close>.\<close>

definition updateDrawCommandBuffers :: "(nat \<Rightarrow> handle \<Rightarrow> nat list) \<Rightarrow> app \<Rightarrow> outcome" where
  "updateDrawCommandBuffers f st =
     (case populateSubCommandBuffers drawCmdBuffers (\<lambda>v s. s\<lparr>drawCmdBuffers := v\<rparr>) f st of
        Inl e \<Rightarrow> Inl e
      | Inr st1 \<Rightarrow> Inr (st1\<lparr>primaryCmdBuffersDirty := True\<rparr>))"

text \<open>
  One round of the loop of \<^verbatim>\<open>vulkanApp::buildCommandBuffers\<close>.
  \<^verbatim>\<open>updatePrimaryCommandBuffer\<close> has an empty body. \<open>textOverlayVisible\<close> stands for
  \<^verbatim>\<open>textOverlay && textOverlay->visible\<close>.
\<close>

definition recordPrimary :: "nat \<Rightarrow> app \<Rightarrow> outcome" where
  "recordPrimary i st =
     (if \<not> i < length (primaryCmdBuffers st) then Inl (OutOfRange, st)
      else
        (let cmdBuffer = primaryCmdBuffers st ! i;
             st1 = emit [CmdReset cmdBuffer, CmdBegin cmdBuffer NoUsage 0] st
         in if \<not> i < length (framebuffers st1) then Inl (OutOfRange, st1)
            else
              (let st2 = emit [CmdBeginRenderPass cmdBuffer (framebuffers st1 ! i)] st1
               in if drawCmdBuffers st2 \<noteq> [] \<and> \<not> i < length (drawCmdBuffers st2)
                  then Inl (OutOfRange, st2)
                  else
                    (let st3 = (if drawCmdBuffers st2 \<noteq> []
                                then emit [CmdExecuteCommands cmdBuffer (drawCmdBuffers st2 ! i)] st2
                                else st2);
                         withText = (enableTextOverlay st3 \<and> textCmdBuffers st3 \<noteq> []
                                     \<and> textOverlayVisible st3)
                     in if withText \<and> \<not> i < length (textCmdBuffers st3)
                        then Inl (OutOfRange, st3)
                        else
                          (let st4 = (if withText
                                      then emit [CmdExecuteCommands cmdBuffer (textCmdBuffers st3 ! i)] st3
                                      else st3)
                           in Inr (emit [CmdEndRenderPass cmdBuffer, CmdEnd cmdBuffer] st4))))))"

fun buildLoop :: "nat list \<Rightarrow> app \<Rightarrow> outcome" where
  "buildLoop [] st = Inr st"
| "buildLoop (i # is) st =
     (case recordPrimary i st of
        Inl e \<Rightarrow> Inl e
      | Inr st1 \<Rightarrow> buildLoop is st1)"

text \<open>\<^verbatim>\<open>vulkanApp::buildCommandBuffers\<close>; the \<^verbatim>\<open>throw\<close> is its first statement.\<close>

definition buildCommandBuffers :: "app \<Rightarrow> outcome" where
  "buildCommandBuffers st =
     (if drawCmdBuffers st = []
      then Inl (RuntimeError ''Draw command buffers have not been populated.'', st)
      else
        (let st1 = trashCommandBuffers (primaryCmdBuffers st) st;
             st2 = emit [QueueWaitIdle] st1;
             st3 = (if primaryCmdBuffers st2 = [] then
                      (let (bufs, s) = allocateCommandBuffers Primary (imageCount st2) st2
                       in s\<lparr>primaryCmdBuffers := bufs\<rparr>)
                    else st2)
         in case buildLoop [0..<imageCount st3] st3 of
              Inl e \<Rightarrow> Inl e
            | Inr st4 \<Rightarrow> Inr (st4\<lparr>primaryCmdBuffersDirty := False\<rparr>)))"

subsection \<open>One frame\<close>

text \<open>
  What the outside world supplies to one round of the render loop: the SDL events that
  \<^verbatim>\<open>SDL_PollEvent\<close> delivers, the result of \<^verbatim>\<open>swapChain.acquireNextImage\<close> (an
  image index, or the error it throws), the fence of \<^verbatim>\<open>swapChain.getSubmitFence\<close> and
  the fence status read by \<^verbatim>\<open>recycle\<close>.
\<close>

datatype keysym = SDLK_ESCAPE | OtherKey nat

datatype sdl_event =
  SDL_QUIT
| SDL_KEYDOWN keysym
| SDL_KEYUP keysym
| OtherEvent nat

record frame_input =
  sdlEvents :: "sdl_event list"
  acquired :: "error + nat"
  submitFence :: handle
  fenceStatus :: "handle \<Rightarrow> bool"

text \<open>
  \<^verbatim>\<open>vulkanApp::prepareFrame\<close>. The swap chain is not among the sources: the result of
  \<^verbatim>\<open>acquireNextImage\<close> is the argument \<open>acq\<close>.
\<close>

definition prepareFrame :: "error + nat \<Rightarrow> app \<Rightarrow> outcome" where
  "prepareFrame acq st =
     (case (if primaryCmdBuffersDirty st then buildCommandBuffers st else Inr st) of
        Inl e \<Rightarrow> Inl e
      | Inr st1 \<Rightarrow>
          (let st2 = emit [AcquireNextImage (acquireComplete st1)] st1
           in case acq of
                Inl err \<Rightarrow> Inl (err, st2)
              | Inr i \<Rightarrow> Inr (st2\<lparr>currentBuffer := i\<rparr>)))"

text \<open>\<^verbatim>\<open>vulkanApp::submitFrame\<close>.\<close>

definition submitFrame :: "app \<Rightarrow> app" where
  "submitFrame st = emit [QueuePresent (renderComplete st)] st"

text \<open>
  \<^verbatim>\<open>vulkanApp::draw\<close>. It calls \<^verbatim>\<open>drawCurrentCommandBuffer()\<close> without an
  argument; the default argument is declared in a header that is not among the sources.
  Modelled from the spec: the wait list "always includes acquire-complete" (4.5, step 3),
  which is what the null semaphore selects.
\<close>

definition draw :: "frame_input \<Rightarrow> app \<Rightarrow> outcome" where
  "draw inp st =
     (case prepareFrame (acquired inp) st of
        Inl e \<Rightarrow> Inl e
      | Inr st1 \<Rightarrow>
          (case drawCurrentCommandBuffer 0 (submitFence inp) (fenceStatus inp) st1 of
             Inl e \<Rightarrow> Inl e
           | Inr st2 \<Rightarrow> Inr (submitFrame st2)))"

text \<open>\<^verbatim>\<open>vulkanApp::render\<close>.\<close>

definition render :: "frame_input \<Rightarrow> app \<Rightarrow> outcome" where
  "render inp st = (if \<not> prepared st then Inr st else draw inp st)"

text \<open>
  \<^verbatim>\<open>vulkanApp::updateKeyboardMouseInfo\<close>: the loop over the polled events. Key and
  mouse states only steer the camera, which is not part of the state; what remains is the
  quit flag.
\<close>

fun handleEvent :: "sdl_event \<Rightarrow> app \<Rightarrow> app" where
  "handleEvent SDL_QUIT st = st\<lparr>quit := True\<rparr>"
| "handleEvent (SDL_KEYDOWN k) st = (case k of SDLK_ESCAPE \<Rightarrow> st\<lparr>quit := True\<rparr> | OtherKey _ \<Rightarrow> st)"
| "handleEvent (SDL_KEYUP k) st = (case k of SDLK_ESCAPE \<Rightarrow> st\<lparr>quit := True\<rparr> | OtherKey _ \<Rightarrow> st)"
| "handleEvent (OtherEvent _) st = st"

fun updateKeyboardMouseInfo :: "sdl_event list \<Rightarrow> app \<Rightarrow> app" where
  "updateKeyboardMouseInfo [] st = st"
| "updateKeyboardMouseInfo (e # es) st = updateKeyboardMouseInfo es (handleEvent e st)"

text \<open>
  \<^verbatim>\<open>vulkanApp::update\<close> moves the camera and calls \<^verbatim>\<open>viewChanged\<close>, whose body is
  empty: nothing of the state changes.
\<close>

definition update :: "app \<Rightarrow> app" where
  "update st = st"

subsection \<open>The render loop\<close>

text \<open>The body of the \<^verbatim>\<open>while (!quit)\<close> loop of \<^verbatim>\<open>vulkanApp::renderLoop\<close>.\<close>

definition frame :: "(nat \<Rightarrow> handle \<Rightarrow> nat list) \<Rightarrow> frame_input \<Rightarrow> app \<Rightarrow> outcome" where
  "frame f inp st =
     (let st1 = updateKeyboardMouseInfo (sdlEvents inp) st;
          st2 = update st1
      in case updateDrawCommandBuffers f st2 of
           Inl e \<Rightarrow> Inl e
         | Inr st3 \<Rightarrow> render inp st3)"

text \<open>
  The loop itself: round \<open>n\<close> reads \<open>env n\<close>. It need not end, so the result is an
  option: \<open>None\<close> when the loop runs forever.
\<close>

partial_function (option) whileNotQuit ::
  "(nat \<Rightarrow> handle \<Rightarrow> nat list) \<Rightarrow> (nat \<Rightarrow> frame_input) \<Rightarrow> nat \<Rightarrow> app \<Rightarrow> outcome option" where
  "whileNotQuit f env n st =
     (if quit st then Some (Inr st)
      else case frame f (env n) st of
             Inl e \<Rightarrow> Some (Inl e)
           | Inr st1 \<Rightarrow> whileNotQuit f env (Suc n) st1)"

text \<open>\<^verbatim>\<open>vulkanApp::renderLoop\<close>.\<close>

definition renderLoop ::
  "(nat \<Rightarrow> handle \<Rightarrow> nat list) \<Rightarrow> (nat \<Rightarrow> frame_input) \<Rightarrow> app \<Rightarrow> outcome option" where
  "renderLoop f env st =
     (case whileNotQuit f env 0 st of
        None \<Rightarrow> None
      | Some (Inl e) \<Rightarrow> Some (Inl e)
      | Some (Inr st1) \<Rightarrow> Some (Inr (emit [SDLDestroyWindow, SDLQuit] st1)))"

text \<open>
  \<^verbatim>\<open>vulkanApp::run\<close>. \<open>prep\<close> is what \<^verbatim>\<open>setupWindow\<close> and the virtual
  \<^verbatim>\<open>prepare\<close> of the running example do to the state.
\<close>

definition run ::
  "(app \<Rightarrow> outcome) \<Rightarrow> (nat \<Rightarrow> handle \<Rightarrow> nat list) \<Rightarrow> (nat \<Rightarrow> frame_input) \<Rightarrow> app \<Rightarrow> outcome option" where
  "run prep f env st =
     (case prep st of
        Inl e \<Rightarrow> Some (Inl e)
      | Inr st1 \<Rightarrow>
          (case renderLoop f env st1 of
             None \<Rightarrow> None
           | Some (Inl e) \<Rightarrow> Some (Inl e)
           | Some (Inr st2) \<Rightarrow> Some (Inr (emit [QueueWaitIdle, DeviceWaitIdle] st2))))"

text \<open>
  The destructor \<^verbatim>\<open>vulkanApp::~vulkanApp\<close>, which \<^verbatim>\<open>WinMain\<close> runs after
  \<^verbatim>\<open>run\<close> has returned (\<^verbatim>\<open>example->run(); delete(example);\<close>).
\<close>

definition destructor :: "app \<Rightarrow> app" where
  "destructor st =
     (let st1 = emit [Released SwapChain] st;
          st2 = (if descriptorPool st1 \<noteq> 0 then emit [Released (DescriptorPool (descriptorPool st1))] st1
                 else st1);
          st3 = (if primaryCmdBuffers st2 \<noteq> []
                 then (emit [Executed (FreeCommandBuffers (primaryCmdBuffers st2))] st2)\<lparr>primaryCmdBuffers := []\<rparr>
                 else st2);
          st4 = (if drawCmdBuffers st3 \<noteq> []
                 then (emit [Executed (FreeCommandBuffers (drawCmdBuffers st3))] st3)\<lparr>drawCmdBuffers := []\<rparr>
                 else st3);
          st5 = (if textCmdBuffers st4 \<noteq> []
                 then (emit [Executed (FreeCommandBuffers (textCmdBuffers st4))] st4)\<lparr>textCmdBuffers := []\<rparr>
                 else st4);
          st6 = emit ([Released RenderPass] @ map (\<lambda>fb. Released (Framebuffer fb)) (framebuffers st5)
                      @ map (\<lambda>m. Released (ShaderModule m)) (shaderModules st5)
                      @ [Released DepthStencil]) st5;
          st7 = (if textureLoader st6 then emit [Released TextureLoader] st6 else st6);
          st8 = (if enableTextOverlay st7 then emit [Released TextOverlay] st7 else st7)
      in emit [Executed (DestroySemaphore (acquireComplete st8)),
               Executed (DestroySemaphore (renderComplete st8)),
               Released Context] st8)"


section \<open>Observing a run\<close>

text \<open>The calls logged between two states, and what they contain.\<close>

definition newEvents :: "app \<Rightarrow> app \<Rightarrow> event list" where
  "newEvents st st' = drop (length (trace st)) (trace st')"

fun submissions :: "event list \<Rightarrow> (submit_info \<times> handle) list" where
  "submissions [] = []"
| "submissions (QueueSubmit si fence # es) = (si, fence) # submissions es"
| "submissions (_ # es) = submissions es"

fun executedCleanups :: "event list \<Rightarrow> cleanup list" where
  "executedCleanups [] = []"
| "executedCleanups (Executed a # es) = a # executedCleanups es"
| "executedCleanups (_ # es) = executedCleanups es"

fun allocatedCommandBuffers :: "event list \<Rightarrow> handle list" where
  "allocatedCommandBuffers [] = []"
| "allocatedCommandBuffers (AllocateCommandBuffers lv hs # es) = hs @ allocatedCommandBuffers es"
| "allocatedCommandBuffers (_ # es) = allocatedCommandBuffers es"

text \<open>The state in which a call ends, whether it returns or stops.\<close>

definition stateOf :: "outcome \<Rightarrow> app" where
  "stateOf r = (case r of Inl (e, st) \<Rightarrow> st | Inr st \<Rightarrow> st)"

text \<open>
  Concrete states on which the model is run: the application after \<^verbatim>\<open>initVulkan\<close>
  has created its two semaphores, with two swap-chain images; three pending updates of
  16, 32 and 64 bytes.
\<close>

definition sampleApp :: app where
  "sampleApp =
     \<lparr>quit = False, prepared = True, imageCount = 2, framebuffers = [11, 12],
      shaderModules = [], descriptorPool = 0, textureLoader = False, currentBuffer = 0,
      drawCmdBuffers = [], textCmdBuffers = [], primaryCmdBuffers = [],
      primaryCmdBuffersDirty = True, enableTextOverlay = False, textOverlayVisible = False,
      acquireComplete = 1, renderComplete = 2, transferComplete = 0, pendingUpdates = [],
      dumpster = [], recycler = [], handleCounter = 2,
      trace = [CreateSemaphore 1, CreateSemaphore 2]\<rparr>"

definition sampleUpdates :: "pending_update list" where
  "sampleUpdates =
     [\<lparr>upd_buffer = 7, upd_offset = 0, upd_size = 16, upd_data = 1\<rparr>,
      \<lparr>upd_buffer = 7, upd_offset = 16, upd_size = 32, upd_data = 2\<rparr>,
      \<lparr>upd_buffer = 8, upd_offset = 0, upd_size = 64, upd_data = 3\<rparr>]"


text \<open>
  The application with recorded draw and primary buffers, a transfer-complete semaphore
  left by the previous frame, three pending updates and one entry in the reclaim queue.
\<close>

definition readyApp :: app where
  "readyApp = sampleApp\<lparr>drawCmdBuffers := [3, 4], primaryCmdBuffers := [5, 6],
      primaryCmdBuffersDirty := False, transferComplete := 7, pendingUpdates := sampleUpdates,
      recycler := [(8, [DestroySemaphore 9])], handleCounter := 9\<rparr>"

text \<open>The application with a filled dumpster and two entries in the reclaim queue.\<close>

definition queuedApp :: app where
  "queuedApp = sampleApp\<lparr>dumpster := [[ClearSubmitFence 1]],
      recycler := [(30, [DestroySemaphore 31]), (32, [FreeCommandBuffers [33]])],
      pendingUpdates := sampleUpdates, handleCounter := 40\<rparr>"


text \<open>Whether a call returned, rather than stopped.\<close>

definition returned :: "outcome \<Rightarrow> bool" where
  "returned r = (case r of Inl _ \<Rightarrow> False | Inr _ \<Rightarrow> True)"

text \<open>
  A draw callback that records one command, the same for every call, and the application
  after it has recorded its draw buffers and built its primary buffers once.
\<close>

definition sampleContent :: "nat \<Rightarrow> handle \<Rightarrow> nat list" where
  "sampleContent i cmdBuffer = [i]"

definition rebuiltApp :: app where
  "rebuiltApp = stateOf (buildCommandBuffers (stateOf (updateDrawCommandBuffers sampleContent sampleApp)))"

text \<open>The same application after the draw buffers have been recorded once more, with the same content.\<close>

definition rerecordedApp :: app where
  "rerecordedApp = stateOf (updateDrawCommandBuffers sampleContent rebuiltApp)"


text \<open>
  The events on which \<^verbatim>\<open>updateKeyboardMouseInfo\<close> sets \<^verbatim>\<open>quit\<close>: the quit signal
  of the input collaborator.
\<close>

fun isQuitEvent :: "sdl_event \<Rightarrow> bool" where
  "isQuitEvent SDL_QUIT = True"
| "isQuitEvent (SDL_KEYDOWN k) = (k = SDLK_ESCAPE)"
| "isQuitEvent (SDL_KEYUP k) = (k = SDLK_ESCAPE)"
| "isQuitEvent (OtherEvent _) = False"

definition quitSignal :: "sdl_event list \<Rightarrow> bool" where
  "quitSignal es = (\<exists>e\<in>set es. isQuitEvent e)"

text \<open>
  \<open>rounds f env n k\<close>: the loop body run \<open>k\<close> times in a row, on the inputs
  \<open>env n\<close>, ..., without the test of \<^verbatim>\<open>quit\<close>.
\<close>

fun rounds ::
  "(nat \<Rightarrow> handle \<Rightarrow> nat list) \<Rightarrow> (nat \<Rightarrow> frame_input) \<Rightarrow> nat \<Rightarrow> nat \<Rightarrow> app \<Rightarrow> outcome" where
  "rounds f env n 0 st = Inr st"
| "rounds f env n (Suc k) st =
     (case frame f (env n) st of
        Inl e \<Rightarrow> Inl e
      | Inr st1 \<Rightarrow> rounds f env (Suc n) k st1)"

text \<open>
  An environment whose second round delivers the Escape key, and the sample application
  after the first round in it.
\<close>

definition sampleEnv :: "nat \<Rightarrow> frame_input" where
  "sampleEnv n =
     \<lparr>sdlEvents = (if n = 1 then [OtherEvent 3, SDL_KEYDOWN SDLK_ESCAPE] else [OtherEvent 0]),
      acquired = Inr (n mod 2),
      submitFence = 100 + n,
      fenceStatus = (\<lambda>h. h < 100 + n)\<rparr>"

definition afterFirstFrame :: app where
  "afterFirstFrame =
     sampleApp\<lparr>drawCmdBuffers := [3, 4], primaryCmdBuffers := [5, 6],
        primaryCmdBuffersDirty := False, recycler := [(100, [ClearSubmitFence 0])],
        handleCounter := 6,
        trace :=
          [CreateSemaphore 1, CreateSemaphore 2,
           AllocateCommandBuffers Secondary [3, 4], CmdReset 3,
           CmdBegin 3 RenderPassContinueSimultaneousUse 11, CmdContent 3 0,
           CmdEnd 3, CmdReset 4,
           CmdBegin 4 RenderPassContinueSimultaneousUse 12, CmdContent 4 1,
           CmdEnd 4, QueueWaitIdle, AllocateCommandBuffers Primary [5, 6],
           CmdReset 5, CmdBegin 5 NoUsage 0, CmdBeginRenderPass 5 11,
           CmdExecuteCommands 5 3, CmdEndRenderPass 5, CmdEnd 5, CmdReset 6,
           CmdBegin 6 NoUsage 0, CmdBeginRenderPass 6 12,
           CmdExecuteCommands 6 4, CmdEndRenderPass 6, CmdEnd 6,
           AcquireNextImage 1,
           QueueSubmit
            \<lparr>waitSemaphores = [1],
               waitDstStageMask = [SubmitPipelineStages],
               signalSemaphores = [2], commandBuffers = [5]\<rparr>
            100,
           QueuePresent 2]\<rparr>"


section \<open>Properties\<close>

subsection \<open>Auxiliary facts\<close>

lemma submissions_append: "submissions (xs @ ys) = submissions xs @ submissions ys"
  by (induction xs rule: submissions.induct) simp_all

lemma executedCleanups_append:
  "executedCleanups (xs @ ys) = executedCleanups xs @ executedCleanups ys"
  by (induction xs rule: executedCleanups.induct) simp_all

lemma submissions_map_Executed: "submissions (map Executed c) = []"
  by (induction c) simp_all

lemma executedCleanups_map_Executed: "executedCleanups (map Executed c) = c"
  by (induction c) simp_all

lemma submissions_map_CmdUpdateBuffer: "submissions (map (CmdUpdateBuffer cb) us) = []"
  by (induction us) simp_all

lemma executedCleanups_map_CmdUpdateBuffer: "executedCleanups (map (CmdUpdateBuffer cb) us) = []"
  by (induction us) simp_all

lemma recycleScan_append:
  "recycleScan sg (q @ q') =
     (fst (recycleScan sg q) @ fst (recycleScan sg q'),
      snd (recycleScan sg q) @ snd (recycleScan sg q'))"
  by (induction q) (auto simp: Let_def split: prod.splits)

lemma submissions_recycleScan: "submissions (fst (recycleScan sg q)) = []"
  by (induction q) (auto simp: Let_def submissions_append submissions_map_Executed split: prod.splits)

lemma recycleScan_executed:
  "a \<in> set (executedCleanups (fst (recycleScan sg q))) \<Longrightarrow>
     \<exists>fence c. (fence, c) \<in> set q \<and> sg fence \<and> a \<in> set c"
proof (induction q)
  case Nil
  then show ?case by simp
next
  case (Cons p q)
  obtain fence c where p: "p = (fence, c)" by (cases p)
  obtain es kept where r: "recycleScan sg q = (es, kept)" by (cases "recycleScan sg q")
  show ?case
  proof (cases "sg fence")
    case True
    with Cons.prems p r have "a \<in> set c \<or> a \<in> set (executedCleanups es)"
      by (auto simp: executedCleanups_append executedCleanups_map_Executed)
    then show ?thesis
    proof
      assume "a \<in> set c"
      with True p show ?thesis by auto
    next
      assume "a \<in> set (executedCleanups es)"
      with Cons.IH r obtain f' c' where "(f', c') \<in> set q" "sg f'" "a \<in> set c'" by auto
      then show ?thesis by auto
    qed
  next
    case False
    with Cons.prems p r have "a \<in> set (executedCleanups es)" by simp
    with Cons.IH r obtain f' c' where "(f', c') \<in> set q" "sg f'" "a \<in> set c'" by auto
    then show ?thesis by auto
  qed
qed

lemma recycleScan_kept:
  "(fence, c) \<in> set q \<Longrightarrow> \<not> sg fence \<Longrightarrow> (fence, c) \<in> set (snd (recycleScan sg q))"
  by (induction q) (auto simp: Let_def split: prod.splits if_splits)

lemma newEvents_emit: "newEvents st (emit es st) = es"
  by (simp add: newEvents_def emit_def)

lemma exec_empty: "pendingUpdates st = [] \<Longrightarrow> executePendingTransfers tp st = Inr st"
  by (simp add: executePendingTransfers_def)

lemma exec_nonempty:
  assumes "pendingUpdates st \<noteq> []" "tp \<noteq> 0"
  shows "executePendingTransfers tp st =
     Inr (st\<lparr>transferComplete := handleCounter st + 2,
             handleCounter := handleCounter st + 3,
             pendingUpdates := [],
             recycler := recycler st @
               [(handleCounter st + 1, [DestroySemaphore tp, FreeCommandBuffers [handleCounter st + 3]])],
             trace := trace st @
        [CreateFence (handleCounter st + 1), CreateSemaphore (handleCounter st + 2),
         AllocateCommandBuffers Primary [handleCounter st + 3],
         CmdBegin (handleCounter st + 3) OneTimeSubmit 0]
        @ map (CmdUpdateBuffer (handleCounter st + 3)) (pendingUpdates st)
        @ [CmdEnd (handleCounter st + 3),
           QueueSubmit \<lparr>waitSemaphores = [tp], waitDstStageMask = [StageAllCommands],
                        signalSemaphores = [handleCounter st + 2],
                        commandBuffers = [handleCounter st + 3]\<rparr> (handleCounter st + 1)]\<rparr>)"
  using assms
  by (simp add: executePendingTransfers_def createFence_def createSemaphore_def
        allocateCommandBuffers_def emit_def Let_def)

lemma draw_empty:
  assumes "primaryCmdBuffers st = []"
  shows "drawCurrentCommandBuffer sem fence sg st =
     Inr (st\<lparr>transferComplete := 0,
             dumpster := [],
             recycler := recycler st @
               [(fence, concat (dumpster st) @ [ClearSubmitFence (currentBuffer st)]
                        @ (if transferComplete st \<noteq> 0 then [DestroySemaphore (transferComplete st)] else []))],
             handleCounter := (if pendingUpdates st \<noteq> [] then Suc (handleCounter st) else handleCounter st),
             trace := trace st @
               (if pendingUpdates st \<noteq> [] then [CreateSemaphore (Suc (handleCounter st))] else [])\<rparr>)"
  using assms
  by (auto simp: drawCurrentCommandBuffer_def createSemaphore_def emptyDumpster_def emit_def Let_def)


lemma newEvents_append: "trace st' = trace st @ es \<Longrightarrow> newEvents st st' = es"
  by (simp add: newEvents_def)

lemma recycle_trace: "trace (recycle sg s) = trace s @ fst (recycleScan sg (recycler s))"
  by (simp add: recycle_def emit_def split: prod.splits)

lemma recycle_recycler: "recycler (recycle sg s) = snd (recycleScan sg (recycler s))"
  by (simp add: recycle_def emit_def split: prod.splits)

lemma recycle_fields:
  "transferComplete (recycle sg s) = transferComplete s"
  "pendingUpdates (recycle sg s) = pendingUpdates s"
  "handleCounter (recycle sg s) = handleCounter s"
  "dumpster (recycle sg s) = dumpster s"
  by (simp_all add: recycle_def emit_def split: prod.splits)

lemma draw_submit_idle:
  assumes "primaryCmdBuffers st \<noteq> []" "currentBuffer st < length (primaryCmdBuffers st)"
      and "pendingUpdates st = []"
  shows "drawCurrentCommandBuffer sem fence sg st =
     Inr (recycle sg (st\<lparr>transferComplete := 0,
             dumpster := [],
             recycler := recycler st @ [(fence, concat (dumpster st) @ [ClearSubmitFence (currentBuffer st)]
                 @ (if transferComplete st \<noteq> 0 then [DestroySemaphore (transferComplete st)] else []))],
             trace := trace st @
               [QueueSubmit \<lparr>waitSemaphores = (if sem = 0 then acquireComplete st else sem) #
                               (if transferComplete st \<noteq> 0 then [transferComplete st] else []),
                             waitDstStageMask = SubmitPipelineStages #
                               (if transferComplete st \<noteq> 0 then [StageTransfer] else []),
                             signalSemaphores = [renderComplete st],
                             commandBuffers = [primaryCmdBuffers st ! currentBuffer st]\<rparr> fence]\<rparr>))"
  using assms
  by (auto simp: drawCurrentCommandBuffer_def executePendingTransfers_def emptyDumpster_def
        emit_def Let_def
      intro!: arg_cong[where f = "recycle sg"])

lemma draw_submit_flush:
  assumes "primaryCmdBuffers st \<noteq> []" "currentBuffer st < length (primaryCmdBuffers st)"
      and "pendingUpdates st \<noteq> []"
  shows "drawCurrentCommandBuffer sem fence sg st =
     Inr (recycle sg (st\<lparr>transferComplete := handleCounter st + 3,
             dumpster := [],
             pendingUpdates := [],
             handleCounter := handleCounter st + 4,
             recycler := recycler st @ [(fence, concat (dumpster st) @ [ClearSubmitFence (currentBuffer st)]
                 @ (if transferComplete st \<noteq> 0 then [DestroySemaphore (transferComplete st)] else [])),
               (handleCounter st + 2,
                [DestroySemaphore (handleCounter st + 1), FreeCommandBuffers [handleCounter st + 4]])],
             trace := trace st @
               [CreateSemaphore (handleCounter st + 1),
                QueueSubmit \<lparr>waitSemaphores = (if sem = 0 then acquireComplete st else sem) #
                               (if transferComplete st \<noteq> 0 then [transferComplete st] else []),
                             waitDstStageMask = SubmitPipelineStages #
                               (if transferComplete st \<noteq> 0 then [StageTransfer] else []),
                             signalSemaphores = [renderComplete st, handleCounter st + 1],
                             commandBuffers = [primaryCmdBuffers st ! currentBuffer st]\<rparr> fence,
                CreateFence (handleCounter st + 2), CreateSemaphore (handleCounter st + 3),
                AllocateCommandBuffers Primary [handleCounter st + 4],
                CmdBegin (handleCounter st + 4) OneTimeSubmit 0]
               @ map (CmdUpdateBuffer (handleCounter st + 4)) (pendingUpdates st)
               @ [CmdEnd (handleCounter st + 4),
                  QueueSubmit \<lparr>waitSemaphores = [handleCounter st + 1],
                               waitDstStageMask = [StageAllCommands],
                               signalSemaphores = [handleCounter st + 3],
                               commandBuffers = [handleCounter st + 4]\<rparr> (handleCounter st + 2)]\<rparr>))"
  using assms
  by (auto simp: drawCurrentCommandBuffer_def executePendingTransfers_def emptyDumpster_def
        createSemaphore_def createFence_def allocateCommandBuffers_def
        emit_def Let_def
      intro!: arg_cong[where f = "recycle sg"])

lemma draw_out_of_range:
  assumes "primaryCmdBuffers st \<noteq> []" "\<not> currentBuffer st < length (primaryCmdBuffers st)"
  shows "\<exists>s. drawCurrentCommandBuffer sem fence sg st = Inl (OutOfRange, s)"
  using assms
  by (auto simp: drawCurrentCommandBuffer_def createSemaphore_def emptyDumpster_def emit_def Let_def)

lemma submissions_frame:
  assumes "primaryCmdBuffers st \<noteq> []" "currentBuffer st < length (primaryCmdBuffers st)"
  shows "\<exists>st' rest.
     drawCurrentCommandBuffer sem fence sg st = Inr st' \<and>
     newEvents st st' =
       (if pendingUpdates st \<noteq> [] then [CreateSemaphore (Suc (handleCounter st))] else [])
       @ QueueSubmit
           \<lparr>waitSemaphores = (if sem = 0 then acquireComplete st else sem) #
                               (if transferComplete st \<noteq> 0 then [transferComplete st] else []),
            waitDstStageMask = SubmitPipelineStages #
                               (if transferComplete st \<noteq> 0 then [StageTransfer] else []),
            signalSemaphores = renderComplete st #
                               (if pendingUpdates st \<noteq> [] then [Suc (handleCounter st)] else []),
            commandBuffers = [primaryCmdBuffers st ! currentBuffer st]\<rparr> fence # rest"
proof (cases "pendingUpdates st = []")
  case True
  show ?thesis
    using True
    by (simp add: draw_submit_idle [OF assms True] newEvents_def recycle_trace)
next
  case False
  show ?thesis
    using False
    by (simp add: draw_submit_flush [OF assms False] newEvents_def recycle_trace)
qed

lemma executedCleanups_map_upd [simp]:
  "executedCleanups (map (CmdUpdateBuffer cb) us @ rest) = executedCleanups rest"
  by (induction us) simp_all


lemma recycleScan_unsignaled_last:
  "\<not> sg fence \<Longrightarrow>
     recycleScan sg (q @ [(fence, c)]) = (fst (recycleScan sg q), snd (recycleScan sg q) @ [(fence, c)])"
  by (simp add: recycleScan_append)


lemma recordPrimary_effect:
  "\<exists>es. trace (stateOf (recordPrimary i st)) = trace st @ es \<and> submissions es = [] \<and>
        primaryCmdBuffers (stateOf (recordPrimary i st)) = primaryCmdBuffers st \<and>
        (returned (recordPrimary i st) \<longrightarrow>
           i < length (primaryCmdBuffers st) \<and>
           CmdReset (primaryCmdBuffers st ! i) \<in> set es \<and>
           CmdBegin (primaryCmdBuffers st ! i) NoUsage 0 \<in> set es \<and>
           CmdEnd (primaryCmdBuffers st ! i) \<in> set es)"
  by (auto simp: recordPrimary_def stateOf_def returned_def emit_def Let_def)

lemma buildLoop_effect:
  "\<exists>es. trace (stateOf (buildLoop js st)) = trace st @ es \<and> submissions es = [] \<and>
        primaryCmdBuffers (stateOf (buildLoop js st)) = primaryCmdBuffers st \<and>
        (returned (buildLoop js st) \<longrightarrow>
           (\<forall>i\<in>set js. i < length (primaryCmdBuffers st) \<and>
              CmdReset (primaryCmdBuffers st ! i) \<in> set es \<and>
              CmdBegin (primaryCmdBuffers st ! i) NoUsage 0 \<in> set es \<and>
              CmdEnd (primaryCmdBuffers st ! i) \<in> set es))"
proof (induction js arbitrary: st)
  case Nil
  show ?case by (simp add: stateOf_def returned_def)
next
  case (Cons j js)
  from recordPrimary_effect [of j st]
  obtain es1 where e1: "trace (stateOf (recordPrimary j st)) = trace st @ es1" "submissions es1 = []"
      "primaryCmdBuffers (stateOf (recordPrimary j st)) = primaryCmdBuffers st"
      "returned (recordPrimary j st) \<longrightarrow>
           j < length (primaryCmdBuffers st) \<and>
           CmdReset (primaryCmdBuffers st ! j) \<in> set es1 \<and>
           CmdBegin (primaryCmdBuffers st ! j) NoUsage 0 \<in> set es1 \<and>
           CmdEnd (primaryCmdBuffers st ! j) \<in> set es1"
    by blast
  show ?case
  proof (cases "recordPrimary j st")
    case (Inl e)
    then have "buildLoop (j # js) st = recordPrimary j st" by simp
    with e1 Inl show ?thesis by (simp add: returned_def)
  next
    case (Inr s1)
    then have b: "buildLoop (j # js) st = buildLoop js s1" by simp
    from Inr have s1: "stateOf (recordPrimary j st) = s1" by (simp add: stateOf_def)
    from Inr have ret: "returned (recordPrimary j st)" by (simp add: returned_def)
    from Cons.IH [of s1]
    obtain es2 where e2: "trace (stateOf (buildLoop js s1)) = trace s1 @ es2" "submissions es2 = []"
      "primaryCmdBuffers (stateOf (buildLoop js s1)) = primaryCmdBuffers s1"
      "returned (buildLoop js s1) \<longrightarrow>
           (\<forall>i\<in>set js. i < length (primaryCmdBuffers s1) \<and>
              CmdReset (primaryCmdBuffers s1 ! i) \<in> set es2 \<and>
              CmdBegin (primaryCmdBuffers s1 ! i) NoUsage 0 \<in> set es2 \<and>
              CmdEnd (primaryCmdBuffers s1 ! i) \<in> set es2)"
      by blast
    show ?thesis
      using e1 e2 s1 ret b
      by (intro exI [of _ "es1 @ es2"]) (auto simp: submissions_append)
  qed
qed

lemma build_effect:
  assumes "drawCmdBuffers st \<noteq> []"
  shows "\<exists>es. trace (stateOf (buildCommandBuffers st)) = trace st @ QueueWaitIdle # es \<and>
          submissions es = [] \<and>
          (returned (buildCommandBuffers st) \<longrightarrow>
            \<not> primaryCmdBuffersDirty (stateOf (buildCommandBuffers st)) \<and>
            (\<forall>i<imageCount st.
               i < length (primaryCmdBuffers (stateOf (buildCommandBuffers st))) \<and>
               CmdReset (primaryCmdBuffers (stateOf (buildCommandBuffers st)) ! i) \<in> set es \<and>
               CmdBegin (primaryCmdBuffers (stateOf (buildCommandBuffers st)) ! i) NoUsage 0 \<in> set es \<and>
               CmdEnd (primaryCmdBuffers (stateOf (buildCommandBuffers st)) ! i) \<in> set es))"
proof -
  define st3 where "st3 =
     (let st1 = trashCommandBuffers (primaryCmdBuffers st) st;
          st2 = emit [QueueWaitIdle] st1
      in (if primaryCmdBuffers st2 = [] then
                      (let (bufs, s) = allocateCommandBuffers Primary (imageCount st2) st2
                       in s\<lparr>primaryCmdBuffers := bufs\<rparr>)
                    else st2))"
  have t3: "\<exists>pre. trace st3 = trace st @ QueueWaitIdle # pre \<and> submissions pre = []"
    by (auto simp: st3_def trashCommandBuffers_def emit_def allocateCommandBuffers_def Let_def)
  have i3: "imageCount st3 = imageCount st"
    by (auto simp: st3_def trashCommandBuffers_def emit_def allocateCommandBuffers_def Let_def)
  have b: "buildCommandBuffers st =
     (case buildLoop [0..<imageCount st3] st3 of
              Inl e \<Rightarrow> Inl e
            | Inr st4 \<Rightarrow> Inr (st4\<lparr>primaryCmdBuffersDirty := False\<rparr>))"
    using assms by (simp add: buildCommandBuffers_def st3_def Let_def)
  from t3 obtain pre where pre: "trace st3 = trace st @ QueueWaitIdle # pre" "submissions pre = []"
    by blast
  from buildLoop_effect [of "[0..<imageCount st3]" st3]
  obtain es where es: "trace (stateOf (buildLoop [0..<imageCount st3] st3)) = trace st3 @ es"
      "submissions es = []"
      "primaryCmdBuffers (stateOf (buildLoop [0..<imageCount st3] st3)) = primaryCmdBuffers st3"
      "returned (buildLoop [0..<imageCount st3] st3) \<longrightarrow>
           (\<forall>i\<in>set [0..<imageCount st3]. i < length (primaryCmdBuffers st3) \<and>
              CmdReset (primaryCmdBuffers st3 ! i) \<in> set es \<and>
              CmdBegin (primaryCmdBuffers st3 ! i) NoUsage 0 \<in> set es \<and>
              CmdEnd (primaryCmdBuffers st3 ! i) \<in> set es)"
    by blast
  show ?thesis
  proof (cases "buildLoop [0..<imageCount st3] st3")
    case (Inl e)
    obtain err s where e: "e = (err, s)" by (cases e)
    with Inl b have r: "buildCommandBuffers st = Inl (err, s)" by simp
    from Inl e have "stateOf (buildLoop [0..<imageCount st3] st3) = s" by (simp add: stateOf_def)
    with es pre have "trace s = trace st @ QueueWaitIdle # (pre @ es)" by simp
    then show ?thesis
      using r es pre
      by (intro exI [of _ "pre @ es"])
         (simp add: stateOf_def returned_def submissions_append)
  next
    case (Inr st4)
    with b have r: "buildCommandBuffers st = Inr (st4\<lparr>primaryCmdBuffersDirty := False\<rparr>)" by simp
    from Inr have s4: "stateOf (buildLoop [0..<imageCount st3] st3) = st4" by (simp add: stateOf_def)
    from Inr have ret: "returned (buildLoop [0..<imageCount st3] st3)" by (simp add: returned_def)
    from es pre s4 have tr: "trace st4 = trace st @ QueueWaitIdle # (pre @ es)" by simp
    from es s4 have p4: "primaryCmdBuffers st4 = primaryCmdBuffers st3" by simp
    show ?thesis
      using r es pre ret tr p4 i3
      by (intro exI [of _ "pre @ es"])
         (auto simp: stateOf_def returned_def submissions_append)
  qed
qed
lemma upt_0_2: "[0..<2] = [0, Suc 0]"
  by (simp add: upt_rec)

lemma build_readyApp:
  "buildCommandBuffers readyApp =
     Inr (readyApp\<lparr>dumpster := [[FreeCommandBuffers [5, 6]]],
        trace := trace readyApp @
          [QueueWaitIdle,
           CmdReset 5, CmdBegin 5 NoUsage 0, CmdBeginRenderPass 5 11, CmdExecuteCommands 5 3,
           CmdEndRenderPass 5, CmdEnd 5,
           CmdReset 6, CmdBegin 6 NoUsage 0, CmdBeginRenderPass 6 12, CmdExecuteCommands 6 4,
           CmdEndRenderPass 6, CmdEnd 6]\<rparr>)"
  by (simp add: buildCommandBuffers_def readyApp_def sampleApp_def trashCommandBuffers_def
        emit_def recordPrimary_def Let_def upt_0_2)

lemma updateDraw_dirty:
  "updateDrawCommandBuffers f st = Inr st' \<Longrightarrow> primaryCmdBuffersDirty st'"
  by (auto simp: updateDrawCommandBuffers_def split: sum.splits)

lemma build_clean:
  "buildCommandBuffers st = Inr st' \<Longrightarrow> \<not> primaryCmdBuffersDirty st'"
  by (auto simp: buildCommandBuffers_def Let_def split: sum.splits if_splits prod.splits)

lemma update_sampleApp:
  "updateDrawCommandBuffers sampleContent sampleApp =
     Inr (sampleApp\<lparr>drawCmdBuffers := [3, 4], handleCounter := 4,
        trace := trace sampleApp @
          [AllocateCommandBuffers Secondary [3, 4],
           CmdReset 3, CmdBegin 3 RenderPassContinueSimultaneousUse 11, CmdContent 3 0, CmdEnd 3,
           CmdReset 4, CmdBegin 4 RenderPassContinueSimultaneousUse 12, CmdContent 4 1, CmdEnd 4]\<rparr>)"
  by (simp add: updateDrawCommandBuffers_def populateSubCommandBuffers_def sampleApp_def
        sampleContent_def allocateCommandBuffers_def emit_def Let_def upt_0_2)

lemma rebuiltApp_eq:
  "rebuiltApp =
     sampleApp\<lparr>drawCmdBuffers := [3, 4], primaryCmdBuffers := [5, 6], handleCounter := 6,
        primaryCmdBuffersDirty := False,
        trace := trace sampleApp @
          [AllocateCommandBuffers Secondary [3, 4],
           CmdReset 3, CmdBegin 3 RenderPassContinueSimultaneousUse 11, CmdContent 3 0, CmdEnd 3,
           CmdReset 4, CmdBegin 4 RenderPassContinueSimultaneousUse 12, CmdContent 4 1, CmdEnd 4,
           QueueWaitIdle, AllocateCommandBuffers Primary [5, 6],
           CmdReset 5, CmdBegin 5 NoUsage 0, CmdBeginRenderPass 5 11, CmdExecuteCommands 5 3,
           CmdEndRenderPass 5, CmdEnd 5,
           CmdReset 6, CmdBegin 6 NoUsage 0, CmdBeginRenderPass 6 12, CmdExecuteCommands 6 4,
           CmdEndRenderPass 6, CmdEnd 6]\<rparr>"
  unfolding rebuiltApp_def update_sampleApp
  by (simp add: stateOf_def buildCommandBuffers_def sampleApp_def trashCommandBuffers_def
        allocateCommandBuffers_def emit_def recordPrimary_def Let_def upt_0_2)

lemma update_rebuiltApp:
  "updateDrawCommandBuffers sampleContent rebuiltApp =
     Inr (rebuiltApp\<lparr>drawCmdBuffers := [7, 8], handleCounter := 8,
        primaryCmdBuffersDirty := True,
        dumpster := [[FreeCommandBuffers [3, 4]]],
        trace := trace rebuiltApp @
          [AllocateCommandBuffers Secondary [7, 8],
           CmdReset 7, CmdBegin 7 RenderPassContinueSimultaneousUse 11, CmdContent 7 0, CmdEnd 7,
           CmdReset 8, CmdBegin 8 RenderPassContinueSimultaneousUse 12, CmdContent 8 1, CmdEnd 8]\<rparr>)"
  unfolding rebuiltApp_eq
  by (simp add: updateDrawCommandBuffers_def populateSubCommandBuffers_def sampleApp_def
        sampleContent_def allocateCommandBuffers_def trashCommandBuffers_def emit_def Let_def upt_0_2)


lemma quit_handleEvent: "quit (handleEvent e st) = (quit st \<or> isQuitEvent e)"
  by (cases e) (auto split: keysym.splits)

lemma quit_updateKeyboardMouseInfo:
  "quit (updateKeyboardMouseInfo es st) = (quit st \<or> quitSignal es)"
  by (induction es arbitrary: st) (auto simp: quitSignal_def quit_handleEvent)

lemma quit_recordPrimary: "quit (stateOf (recordPrimary i st)) = quit st"
  by (auto simp: recordPrimary_def stateOf_def emit_def Let_def)

lemma quit_buildLoop: "quit (stateOf (buildLoop js st)) = quit st"
proof (induction js arbitrary: st)
  case Nil
  show ?case by (simp add: stateOf_def)
next
  case (Cons j js)
  show ?case
  proof (cases "recordPrimary j st")
    case (Inl e)
    with quit_recordPrimary [of j st] show ?thesis by simp
  next
    case (Inr s)
    with quit_recordPrimary [of j st] have "quit s = quit st" by (simp add: stateOf_def)
    with Cons.IH [of s] Inr show ?thesis by simp
  qed
qed

lemma quit_buildCommandBuffers: "quit (stateOf (buildCommandBuffers st)) = quit st"
proof (cases "drawCmdBuffers st = []")
  case True
  then show ?thesis by (simp add: buildCommandBuffers_def stateOf_def)
next
  case False
  define st3 where "st3 =
     (let st1 = trashCommandBuffers (primaryCmdBuffers st) st;
          st2 = emit [QueueWaitIdle] st1
      in (if primaryCmdBuffers st2 = [] then
                      (let (bufs, s) = allocateCommandBuffers Primary (imageCount st2) st2
                       in s\<lparr>primaryCmdBuffers := bufs\<rparr>)
                    else st2))"
  have q3: "quit st3 = quit st"
    by (auto simp: st3_def trashCommandBuffers_def emit_def allocateCommandBuffers_def Let_def)
  have b: "buildCommandBuffers st =
     (case buildLoop [0..<imageCount st3] st3 of
              Inl e \<Rightarrow> Inl e
            | Inr st4 \<Rightarrow> Inr (st4\<lparr>primaryCmdBuffersDirty := False\<rparr>))"
    using False by (simp add: buildCommandBuffers_def st3_def Let_def)
  from quit_buildLoop [of "[0..<imageCount st3]" st3] q3 show ?thesis
    by (auto simp: b stateOf_def split: sum.splits)
qed

lemma quit_prepareFrame: "quit (stateOf (prepareFrame acq st)) = quit st"
  using quit_buildCommandBuffers [of st]
  by (auto simp: prepareFrame_def stateOf_def emit_def Let_def split: sum.splits)

lemma quit_recycle: "quit (recycle sg st) = quit st"
  by (simp add: recycle_def emit_def split: prod.splits)

lemma quit_drawCurrentCommandBuffer:
  "quit (stateOf (drawCurrentCommandBuffer sem fence sg st)) = quit st"
proof (cases "primaryCmdBuffers st = []")
  case True
  show ?thesis by (simp add: draw_empty [OF True] stateOf_def)
next
  case False
  show ?thesis
  proof (cases "currentBuffer st < length (primaryCmdBuffers st)")
    case inr: True
    show ?thesis
    proof (cases "pendingUpdates st = []")
      case True
      show ?thesis by (simp add: draw_submit_idle [OF False inr True] stateOf_def quit_recycle)
    next
      case pend: False
      show ?thesis by (simp add: draw_submit_flush [OF False inr pend] stateOf_def quit_recycle)
    qed
  next
    case oor: False
    with False show ?thesis
      by (auto simp: drawCurrentCommandBuffer_def createSemaphore_def emptyDumpster_def emit_def
            stateOf_def Let_def)
  qed
qed

lemma quit_draw: "quit (stateOf (draw inp st)) = quit st"
proof (cases "prepareFrame (acquired inp) st")
  case (Inl e)
  with quit_prepareFrame [of "acquired inp" st] show ?thesis by (simp add: draw_def)
next
  case (Inr s1)
  with quit_prepareFrame [of "acquired inp" st] have q1: "quit s1 = quit st" by (simp add: stateOf_def)
  from quit_drawCurrentCommandBuffer [of 0 "submitFence inp" "fenceStatus inp" s1] q1 Inr
  show ?thesis
    by (auto simp: draw_def stateOf_def submitFrame_def emit_def split: sum.splits)
qed

lemma quit_render: "quit (stateOf (render inp st)) = quit st"
  using quit_draw [of inp st] by (simp add: render_def stateOf_def)

lemma quit_populateLoop: "quit (stateOf (populateLoop f bufs js st)) = quit st"
  by (induction js arbitrary: st) (auto simp: stateOf_def emit_def Let_def)

lemma quit_updateDrawCommandBuffers: "quit (stateOf (updateDrawCommandBuffers f st)) = quit st"
proof -
  define st3 where "st3 =
     (let st1 = (if drawCmdBuffers st \<noteq> [] then trashCommandBuffers (drawCmdBuffers st) st else st);
          (bufs, st2) = allocateCommandBuffers Secondary (imageCount st1) st1
      in (bufs, st2\<lparr>drawCmdBuffers := bufs\<rparr>))"
  have q3: "quit (snd st3) = quit st"
    by (auto simp: st3_def trashCommandBuffers_def emit_def allocateCommandBuffers_def Let_def)
  have u: "updateDrawCommandBuffers f st =
     (case populateLoop f (fst st3) [0..<imageCount (snd st3)] (snd st3) of
        Inl e \<Rightarrow> Inl e
      | Inr st4 \<Rightarrow> Inr (st4\<lparr>currentBuffer := 0, primaryCmdBuffersDirty := True\<rparr>))"
    by (auto simp: updateDrawCommandBuffers_def populateSubCommandBuffers_def st3_def Let_def
          split: sum.splits prod.splits)
  from quit_populateLoop [of f "fst st3" "[0..<imageCount (snd st3)]" "snd st3"] q3
  show ?thesis by (auto simp: u stateOf_def split: sum.splits)
qed

lemma quit_frame:
  "quit (stateOf (frame f inp st)) = (quit st \<or> quitSignal (sdlEvents inp))"
proof -
  let ?s = "update (updateKeyboardMouseInfo (sdlEvents inp) st)"
  have q: "quit ?s = (quit st \<or> quitSignal (sdlEvents inp))"
    by (simp add: update_def quit_updateKeyboardMouseInfo)
  show ?thesis
  proof (cases "updateDrawCommandBuffers f ?s")
    case (Inl e)
    with quit_updateDrawCommandBuffers [of f ?s] q show ?thesis by (simp add: frame_def Let_def)
  next
    case (Inr s3)
    with quit_updateDrawCommandBuffers [of f ?s] q have "quit s3 = (quit st \<or> quitSignal (sdlEvents inp))"
      by (simp add: stateOf_def)
    with quit_render [of inp s3] Inr show ?thesis by (simp add: frame_def Let_def)
  qed
qed

lemma whileNotQuit_rounds:
  "\<not> quit st \<Longrightarrow> (\<forall>j<k. \<not> quitSignal (sdlEvents (env (n + j)))) \<Longrightarrow>
   quitSignal (sdlEvents (env (n + k))) \<Longrightarrow> rounds f env n (Suc k) st = Inr s \<Longrightarrow>
   whileNotQuit f env n st = Some (Inr s)"
proof (induction k arbitrary: n st)
  case 0
  from "0.prems"(4) obtain s1 where f: "frame f (env n) st = Inr s1" and s1: "s1 = s"
    by (auto split: sum.splits)
  from quit_frame [of f "env n" st] f "0.prems"(3) have "quit s1" by (simp add: stateOf_def)
  then have "whileNotQuit f env (Suc n) s1 = Some (Inr s1)" by (subst whileNotQuit.simps) simp
  with f s1 "0.prems"(1) show ?case by (subst whileNotQuit.simps) simp
next
  case (Suc k)
  from Suc.prems(4) obtain s1 where f: "frame f (env n) st = Inr s1"
      and r: "rounds f env (Suc n) (Suc k) s1 = Inr s"
    by (auto split: sum.splits)
  from Suc.prems(2) have "\<not> quitSignal (sdlEvents (env n))" by (metis add.right_neutral zero_less_Suc)
  with quit_frame [of f "env n" st] f Suc.prems(1) have nq: "\<not> quit s1" by (simp add: stateOf_def)
  have "\<forall>j<k. \<not> quitSignal (sdlEvents (env (Suc n + j)))"
    using Suc.prems(2) by (metis Suc_less_eq add_Suc_shift)
  moreover have "quitSignal (sdlEvents (env (Suc n + k)))" using Suc.prems(3) by simp
  ultimately have "whileNotQuit f env (Suc n) s1 = Some (Inr s)"
    using Suc.IH [OF nq _ _ r] by blast
  with f Suc.prems(1) show ?case by (subst whileNotQuit.simps) simp
qed

lemma whileNotQuit_terminates:
  "quitSignal (sdlEvents (env (n + k))) \<Longrightarrow> \<exists>r. whileNotQuit f env n st = Some r"
proof (induction k arbitrary: n st)
  case 0
  show ?case
  proof (cases "quit st")
    case True
    then show ?thesis by (subst whileNotQuit.simps) simp
  next
    case False
    show ?thesis
    proof (cases "frame f (env n) st")
      case (Inl e)
      with False show ?thesis by (subst whileNotQuit.simps) simp
    next
      case (Inr s1)
      with quit_frame [of f "env n" st] "0.prems" have "quit s1" by (simp add: stateOf_def)
      then have "whileNotQuit f env (Suc n) s1 = Some (Inr s1)" by (subst whileNotQuit.simps) simp
      with Inr False show ?thesis by (subst whileNotQuit.simps) simp
    qed
  qed
next
  case (Suc k)
  show ?case
  proof (cases "quit st")
    case True
    then show ?thesis by (subst whileNotQuit.simps) simp
  next
    case False
    show ?thesis
    proof (cases "frame f (env n) st")
      case (Inl e)
      with False show ?thesis by (subst whileNotQuit.simps) simp
    next
      case (Inr s1)
      from Suc.prems have "quitSignal (sdlEvents (env (Suc n + k)))" by simp
      from Suc.IH [OF this, of s1] obtain r where "whileNotQuit f env (Suc n) s1 = Some r" by blast
      with Inr False show ?thesis by (subst whileNotQuit.simps) simp
    qed
  qed
qed

lemma whileNotQuit_quit:
  assumes "whileNotQuit f env n st = Some r"
  shows "case r of Inl e \<Rightarrow> True | Inr s \<Rightarrow> quit s"
proof (rule whileNotQuit.raw_induct
    [where P = "\<lambda>f env n st r. case r of Inl e \<Rightarrow> True | Inr s \<Rightarrow> quit s", OF _ assms])
  fix w :: "(nat \<Rightarrow> handle \<Rightarrow> nat list) \<Rightarrow> (nat \<Rightarrow> frame_input) \<Rightarrow> nat \<Rightarrow> app \<Rightarrow> outcome option"
  fix f env n st r
  assume IH: "\<And>f env n st r. w f env n st = Some r \<Longrightarrow>
                 (case r of Inl e \<Rightarrow> True | Inr s \<Rightarrow> quit s)"
    and body: "(if quit st then Some (Inr st)
                else case frame f (env n) st of
                       Inl e \<Rightarrow> Some (Inl e)
                     | Inr st1 \<Rightarrow> w f env (Suc n) st1) = Some r"
  show "case r of Inl e \<Rightarrow> True | Inr s \<Rightarrow> quit s"
  proof (cases "quit st")
    case True
    with body show ?thesis by auto
  next
    case False
    show ?thesis
    proof (cases "frame f (env n) st")
      case (Inl e)
      with False body show ?thesis by auto
    next
      case (Inr s1)
      with False body have a: "w f env (Suc n) s1 = Some r" by simp
      from IH [OF a] show ?thesis .
    qed
  qed
qed
lemma destructor_trace: "\<exists>rel. trace (destructor s) = trace s @ Released SwapChain # rel"
  by (simp add: destructor_def emit_def Let_def)

lemma frame0_sample:
  "frame sampleContent (sampleEnv 0) sampleApp = Inr afterFirstFrame"
  by (simp add: frame_def update_def sampleEnv_def update_sampleApp render_def draw_def)
     (simp add: afterFirstFrame_def sampleApp_def prepareFrame_def buildCommandBuffers_def
        trashCommandBuffers_def
        allocateCommandBuffers_def emit_def recordPrimary_def drawCurrentCommandBuffer_def
        emptyDumpster_def executePendingTransfers_def recycle_def submitFrame_def Let_def upt_0_2)

lemma frame1_sample:
  "returned (frame sampleContent (sampleEnv 1) afterFirstFrame)"
  by (simp add: frame_def update_def sampleEnv_def afterFirstFrame_def sampleApp_def
        updateDrawCommandBuffers_def populateSubCommandBuffers_def sampleContent_def
        render_def draw_def returned_def
        prepareFrame_def buildCommandBuffers_def trashCommandBuffers_def
        allocateCommandBuffers_def emit_def recordPrimary_def drawCurrentCommandBuffer_def
        emptyDumpster_def executePendingTransfers_def recycle_def submitFrame_def Let_def upt_0_2)


lemma prepareFrame_dirty:
  "primaryCmdBuffersDirty st \<Longrightarrow>
     prepareFrame acq st =
       (case buildCommandBuffers st of
          Inl e \<Rightarrow> Inl e
        | Inr st1 \<Rightarrow>
            (case acq of
               Inl err \<Rightarrow> Inl (err, emit [AcquireNextImage (acquireComplete st1)] st1)
             | Inr i \<Rightarrow> Inr ((emit [AcquireNextImage (acquireComplete st1)] st1)\<lparr>currentBuffer := i\<rparr>)))"
  by (simp add: prepareFrame_def Let_def split: sum.splits)

lemma prepareFrame_rebuilds:
  assumes "primaryCmdBuffersDirty st" "drawCmdBuffers st \<noteq> []"
  shows "\<exists>es. newEvents st (stateOf (prepareFrame acq st)) = QueueWaitIdle # es \<and>
          submissions es = [] \<and>
          (returned (prepareFrame acq st) \<longrightarrow>
            \<not> primaryCmdBuffersDirty (stateOf (prepareFrame acq st)) \<and>
            (\<forall>i<imageCount st.
               i < length (primaryCmdBuffers (stateOf (prepareFrame acq st))) \<and>
               CmdReset (primaryCmdBuffers (stateOf (prepareFrame acq st)) ! i) \<in> set es \<and>
               CmdBegin (primaryCmdBuffers (stateOf (prepareFrame acq st)) ! i) NoUsage 0 \<in> set es \<and>
               CmdEnd (primaryCmdBuffers (stateOf (prepareFrame acq st)) ! i) \<in> set es))"
proof -
  from build_effect [OF assms(2)] obtain es where
    tr: "trace (stateOf (buildCommandBuffers st)) = trace st @ QueueWaitIdle # es"
    and sub: "submissions es = []"
    and ret: "returned (buildCommandBuffers st) \<longrightarrow>
            \<not> primaryCmdBuffersDirty (stateOf (buildCommandBuffers st)) \<and>
            (\<forall>i<imageCount st.
               i < length (primaryCmdBuffers (stateOf (buildCommandBuffers st))) \<and>
               CmdReset (primaryCmdBuffers (stateOf (buildCommandBuffers st)) ! i) \<in> set es \<and>
               CmdBegin (primaryCmdBuffers (stateOf (buildCommandBuffers st)) ! i) NoUsage 0 \<in> set es \<and>
               CmdEnd (primaryCmdBuffers (stateOf (buildCommandBuffers st)) ! i) \<in> set es)"
    by blast
  note pf = prepareFrame_dirty [OF assms(1), of acq]
  show ?thesis
  proof (cases "buildCommandBuffers st")
    case (Inl e)
    with pf have p: "prepareFrame acq st = buildCommandBuffers st" by simp
    have nr: "\<not> returned (buildCommandBuffers st)" using Inl by (simp add: returned_def)
    from tr sub nr show ?thesis
      unfolding p by (intro exI [of _ es]) (simp add: newEvents_def)
  next
    case (Inr s1)
    then have s1: "stateOf (buildCommandBuffers st) = s1" and r1: "returned (buildCommandBuffers st)"
      by (simp_all add: stateOf_def returned_def)
    let ?a = "AcquireNextImage (acquireComplete s1)"
    show ?thesis
    proof (cases acq)
      case (Inl err)
      with pf Inr have p: "prepareFrame acq st = Inl (err, emit [?a] s1)" by simp
      from tr sub s1 show ?thesis
        unfolding p
        by (intro exI [of _ "es @ [?a]"])
           (simp add: newEvents_def stateOf_def returned_def emit_def submissions_append)
    next
      case (Inr i)
      with pf \<open>buildCommandBuffers st = Inr s1\<close>
      have p: "prepareFrame acq st = Inr ((emit [?a] s1)\<lparr>currentBuffer := i\<rparr>)" by simp
      from tr sub s1 ret r1 show ?thesis
        unfolding p
        by (intro exI [of _ "es @ [?a]"])
           (auto simp: newEvents_def stateOf_def returned_def emit_def submissions_append)
    qed
  qed
qed

lemma rerecordedApp_eq:
  "rerecordedApp =
     rebuiltApp\<lparr>drawCmdBuffers := [7, 8], handleCounter := 8,
        primaryCmdBuffersDirty := True,
        dumpster := [[FreeCommandBuffers [3, 4]]],
        trace := trace rebuiltApp @
          [AllocateCommandBuffers Secondary [7, 8],
           CmdReset 7, CmdBegin 7 RenderPassContinueSimultaneousUse 11, CmdContent 7 0, CmdEnd 7,
           CmdReset 8, CmdBegin 8 RenderPassContinueSimultaneousUse 12, CmdContent 8 1, CmdEnd 8]\<rparr>"
  by (simp add: rerecordedApp_def update_rebuiltApp stateOf_def)

lemma rerecordedApp_fields:
  "primaryCmdBuffersDirty rerecordedApp" "drawCmdBuffers rerecordedApp \<noteq> []"
  "imageCount rerecordedApp = 2"
  by (simp_all add: rerecordedApp_eq rebuiltApp_eq sampleApp_def)

lemma build_rerecordedApp: "returned (buildCommandBuffers rerecordedApp)"
  by (simp add: rerecordedApp_eq rebuiltApp_eq sampleApp_def returned_def buildCommandBuffers_def
        trashCommandBuffers_def allocateCommandBuffers_def emit_def recordPrimary_def Let_def upt_0_2)

lemma prepare_rerecordedApp: "returned (prepareFrame (Inr 0) rerecordedApp)"
  using build_rerecordedApp
  by (simp add: prepareFrame_dirty [OF rerecordedApp_fields(1)] returned_def split: sum.splits)


subsection \<open>The claims\<close>

text \<open>
  Claim C3, amended. With an empty queue \<^verbatim>\<open>executePendingTransfers\<close> does nothing.
  With N > 0 queued updates and a non-null \<^verbatim>\<open>transferPending\<close> it returns, has
  allocated exactly one command buffer, a fresh one, has recorded into it, between a
  one-time-submit \<^verbatim>\<open>begin\<close> and the \<^verbatim>\<open>end\<close>, the N \<^verbatim>\<open>updateBuffer\<close>
  commands in queue order and nothing else, and has left the queue empty.
\<close>

theorem executePendingTransfers_records_queue:
  "(pendingUpdates st = [] \<longrightarrow> executePendingTransfers transferPending st = Inr st) \<and>
   (pendingUpdates st \<noteq> [] \<and> transferPending \<noteq> 0 \<longrightarrow>
      (\<exists>st'. executePendingTransfers transferPending st = Inr st' \<and>
         pendingUpdates st' = [] \<and>
         allocatedCommandBuffers (newEvents st st') = [handleCounter st + 3] \<and>
         newEvents st st' =
           [CreateFence (handleCounter st + 1), CreateSemaphore (handleCounter st + 2),
            AllocateCommandBuffers Primary [handleCounter st + 3],
            CmdBegin (handleCounter st + 3) OneTimeSubmit 0]
           @ map (CmdUpdateBuffer (handleCounter st + 3)) (pendingUpdates st)
           @ [CmdEnd (handleCounter st + 3),
              QueueSubmit \<lparr>waitSemaphores = [transferPending],
                           waitDstStageMask = [StageAllCommands],
                           signalSemaphores = [handleCounter st + 2],
                           commandBuffers = [handleCounter st + 3]\<rparr> (handleCounter st + 1)]))"
proof (intro conjI impI)
  assume "pendingUpdates st = []"
  then show "executePendingTransfers transferPending st = Inr st" by (rule exec_empty)
next
  assume h: "pendingUpdates st \<noteq> [] \<and> transferPending \<noteq> 0"
  have alloc: "allocatedCommandBuffers (map (CmdUpdateBuffer cb) us @ rest) = allocatedCommandBuffers rest"
    for cb us rest by (induction us) simp_all
  from h show "\<exists>st'. executePendingTransfers transferPending st = Inr st' \<and>
         pendingUpdates st' = [] \<and>
         allocatedCommandBuffers (newEvents st st') = [handleCounter st + 3] \<and>
         newEvents st st' =
           [CreateFence (handleCounter st + 1), CreateSemaphore (handleCounter st + 2),
            AllocateCommandBuffers Primary [handleCounter st + 3],
            CmdBegin (handleCounter st + 3) OneTimeSubmit 0]
           @ map (CmdUpdateBuffer (handleCounter st + 3)) (pendingUpdates st)
           @ [CmdEnd (handleCounter st + 3),
              QueueSubmit \<lparr>waitSemaphores = [transferPending],
                           waitDstStageMask = [StageAllCommands],
                           signalSemaphores = [handleCounter st + 2],
                           commandBuffers = [handleCounter st + 3]\<rparr> (handleCounter st + 1)]"
    by (simp add: exec_nonempty newEvents_def alloc)
qed

text \<open>
  Claim C3 as written fails for N = 0: nothing is allocated, so the zero updates are not
  recorded into "exactly one" command buffer.
\<close>

theorem executePendingTransfers_empty_queue_counterexample:
  "pendingUpdates sampleApp = [] \<and>
   executePendingTransfers 0 sampleApp = Inr sampleApp \<and>
   allocatedCommandBuffers (newEvents sampleApp (stateOf (executePendingTransfers 0 sampleApp))) = []"
  by (simp add: sampleApp_def executePendingTransfers_def stateOf_def newEvents_def)

theorem executePendingTransfers_records_queue_witness:
  "pendingUpdates (sampleApp\<lparr>pendingUpdates := sampleUpdates\<rparr>) \<noteq> [] \<and> (5::nat) \<noteq> 0 \<and>
   (\<exists>st'. executePendingTransfers 5 (sampleApp\<lparr>pendingUpdates := sampleUpdates\<rparr>) = Inr st' \<and>
      pendingUpdates st' = [] \<and>
      allocatedCommandBuffers (newEvents (sampleApp\<lparr>pendingUpdates := sampleUpdates\<rparr>) st') = [5] \<and>
      newEvents (sampleApp\<lparr>pendingUpdates := sampleUpdates\<rparr>) st' =
        [CreateFence 3, CreateSemaphore 4, AllocateCommandBuffers Primary [5],
         CmdBegin 5 OneTimeSubmit 0,
         CmdUpdateBuffer 5 \<lparr>upd_buffer = 7, upd_offset = 0, upd_size = 16, upd_data = 1\<rparr>,
         CmdUpdateBuffer 5 \<lparr>upd_buffer = 7, upd_offset = 16, upd_size = 32, upd_data = 2\<rparr>,
         CmdUpdateBuffer 5 \<lparr>upd_buffer = 8, upd_offset = 0, upd_size = 64, upd_data = 3\<rparr>,
         CmdEnd 5,
         QueueSubmit \<lparr>waitSemaphores = [5], waitDstStageMask = [StageAllCommands],
                      signalSemaphores = [4], commandBuffers = [5]\<rparr> 3])"
  using executePendingTransfers_records_queue [of "sampleApp\<lparr>pendingUpdates := sampleUpdates\<rparr>" 5]
  by (simp add: sampleApp_def sampleUpdates_def)


text \<open>
  Claim C4. When \<^verbatim>\<open>drawCurrentCommandBuffer\<close> submits the frame (the current image
  has a primary command buffer), the first submission it makes is the frame's, guarded by
  the submit fence, and its wait list is acquire-complete (or the semaphore passed in)
  followed by the transfer-complete semaphore of the previous frame when there is one:
  length 2 with a pending transfer-complete semaphore, length 1 otherwise.
\<close>

theorem frame_wait_semaphores:
  assumes "primaryCmdBuffers st \<noteq> []" "currentBuffer st < length (primaryCmdBuffers st)"
  shows "\<exists>st' si more.
     drawCurrentCommandBuffer sem fence sg st = Inr st' \<and>
     submissions (newEvents st st') = (si, fence) # more \<and>
     waitSemaphores si = (if sem = 0 then acquireComplete st else sem) #
                         (if transferComplete st \<noteq> 0 then [transferComplete st] else []) \<and>
     length (waitSemaphores si) = (if transferComplete st \<noteq> 0 then 2 else 1)"
proof -
  from submissions_frame [OF assms, of sem fence sg]
  obtain st' rest where r: "drawCurrentCommandBuffer sem fence sg st = Inr st'"
    and ev: "newEvents st st' =
       (if pendingUpdates st \<noteq> [] then [CreateSemaphore (Suc (handleCounter st))] else [])
       @ QueueSubmit
           \<lparr>waitSemaphores = (if sem = 0 then acquireComplete st else sem) #
                               (if transferComplete st \<noteq> 0 then [transferComplete st] else []),
            waitDstStageMask = SubmitPipelineStages #
                               (if transferComplete st \<noteq> 0 then [StageTransfer] else []),
            signalSemaphores = renderComplete st #
                               (if pendingUpdates st \<noteq> [] then [Suc (handleCounter st)] else []),
            commandBuffers = [primaryCmdBuffers st ! currentBuffer st]\<rparr> fence # rest"
    by blast
  show ?thesis
    using r by (simp add: ev submissions_append)
qed

theorem frame_wait_semaphores_witness:
  "primaryCmdBuffers readyApp \<noteq> [] \<and> currentBuffer readyApp < length (primaryCmdBuffers readyApp) \<and>
   transferComplete readyApp \<noteq> 0 \<and>
   (\<exists>st' si more.
     drawCurrentCommandBuffer 0 20 (\<lambda>h. False) readyApp = Inr st' \<and>
     submissions (newEvents readyApp st') = (si, 20) # more \<and>
     waitSemaphores si = [1, 7] \<and> length (waitSemaphores si) = 2)"
  using frame_wait_semaphores [of readyApp 0 20 "\<lambda>h. False"]
  by (simp add: readyApp_def sampleApp_def)

text \<open>
  Claim C5. The frame submission carries the primary command buffer of the current image
  and signals render-complete, followed by a transfer-pending semaphore exactly when
  \<^verbatim>\<open>pendingUpdates\<close> is not empty; that semaphore is created by the only call which
  precedes the submission.
\<close>

theorem frame_signal_semaphores:
  assumes "primaryCmdBuffers st \<noteq> []" "currentBuffer st < length (primaryCmdBuffers st)"
  shows "\<exists>st' si rest.
     drawCurrentCommandBuffer sem fence sg st = Inr st' \<and>
     newEvents st st' =
       (if pendingUpdates st \<noteq> [] then [CreateSemaphore (Suc (handleCounter st))] else [])
       @ QueueSubmit si fence # rest \<and>
     commandBuffers si = [primaryCmdBuffers st ! currentBuffer st] \<and>
     signalSemaphores si =
       renderComplete st # (if pendingUpdates st \<noteq> [] then [Suc (handleCounter st)] else [])"
proof -
  from submissions_frame [OF assms, of sem fence sg]
  obtain st' rest where r: "drawCurrentCommandBuffer sem fence sg st = Inr st'"
    and ev: "newEvents st st' =
       (if pendingUpdates st \<noteq> [] then [CreateSemaphore (Suc (handleCounter st))] else [])
       @ QueueSubmit
           \<lparr>waitSemaphores = (if sem = 0 then acquireComplete st else sem) #
                               (if transferComplete st \<noteq> 0 then [transferComplete st] else []),
            waitDstStageMask = SubmitPipelineStages #
                               (if transferComplete st \<noteq> 0 then [StageTransfer] else []),
            signalSemaphores = renderComplete st #
                               (if pendingUpdates st \<noteq> [] then [Suc (handleCounter st)] else []),
            commandBuffers = [primaryCmdBuffers st ! currentBuffer st]\<rparr> fence # rest"
    by blast
  show ?thesis
    using r by (simp add: ev)
qed

theorem frame_signal_semaphores_witness:
  "primaryCmdBuffers readyApp \<noteq> [] \<and> currentBuffer readyApp < length (primaryCmdBuffers readyApp) \<and>
   pendingUpdates readyApp \<noteq> [] \<and>
   (\<exists>st' si rest.
     drawCurrentCommandBuffer 0 20 (\<lambda>h. False) readyApp = Inr st' \<and>
     newEvents readyApp st' = [CreateSemaphore 10] @ QueueSubmit si 20 # rest \<and>
     commandBuffers si = [5] \<and> signalSemaphores si = [2, 10])"
  using frame_signal_semaphores [of readyApp 0 20 "\<lambda>h. False"]
  by (simp add: readyApp_def sampleApp_def sampleUpdates_def)

text \<open>
  Claim C9. With no primary command buffers \<^verbatim>\<open>drawCurrentCommandBuffer\<close> returns
  early: nothing is submitted, no cleanup is executed (whatever the fences read), the
  pending updates stay queued, and yet the dumpster has been emptied onto the submit
  fence. The only call made is the creation of the transfer-pending semaphore when
  updates are queued.
\<close>

theorem no_primary_buffers_early_return:
  assumes "primaryCmdBuffers st = []"
  shows "\<exists>st'.
     drawCurrentCommandBuffer sem fence sg st = Inr st' \<and>
     newEvents st st' =
       (if pendingUpdates st \<noteq> [] then [CreateSemaphore (Suc (handleCounter st))] else []) \<and>
     submissions (newEvents st st') = [] \<and>
     executedCleanups (newEvents st st') = [] \<and>
     pendingUpdates st' = pendingUpdates st \<and>
     dumpster st' = [] \<and>
     recycler st' = recycler st @
       [(fence, concat (dumpster st) @ [ClearSubmitFence (currentBuffer st)]
                @ (if transferComplete st \<noteq> 0 then [DestroySemaphore (transferComplete st)] else []))]"
  by (simp add: draw_empty [OF assms] newEvents_def)

theorem no_primary_buffers_early_return_witness:
  "primaryCmdBuffers (readyApp\<lparr>primaryCmdBuffers := []\<rparr>) = [] \<and>
   (\<exists>st'.
     drawCurrentCommandBuffer 0 20 (\<lambda>h. True) (readyApp\<lparr>primaryCmdBuffers := []\<rparr>) = Inr st' \<and>
     newEvents (readyApp\<lparr>primaryCmdBuffers := []\<rparr>) st' = [CreateSemaphore 10] \<and>
     submissions (newEvents (readyApp\<lparr>primaryCmdBuffers := []\<rparr>) st') = [] \<and>
     executedCleanups (newEvents (readyApp\<lparr>primaryCmdBuffers := []\<rparr>) st') = [] \<and>
     pendingUpdates st' = sampleUpdates \<and>
     dumpster st' = [] \<and>
     recycler st' = [(8, [DestroySemaphore 9]), (20, [ClearSubmitFence 0, DestroySemaphore 7])])"
  using no_primary_buffers_early_return [of "readyApp\<lparr>primaryCmdBuffers := []\<rparr>" 0 20 "\<lambda>h. True"]
  by (simp add: readyApp_def sampleApp_def sampleUpdates_def)

text \<open>
  Claim C10. After \<^verbatim>\<open>drawCurrentCommandBuffer\<close> has returned,
  \<^verbatim>\<open>semaphores.transferComplete\<close> is non-null exactly when pending updates were
  flushed, and is then a semaphore created during the call. The state \<open>mid\<close> is the one
  reached before \<^verbatim>\<open>recycle\<close> (the final one on the early return): up to there no
  cleanup has been executed, and the closure destroying the previous transfer-complete
  semaphore sits in the reclaim queue under the submit fence; it is still there at the end
  when that fence reads unsignaled.
\<close>

theorem transferComplete_handover:
  assumes "drawCurrentCommandBuffer sem fence sg st = Inr st'"
  shows "(transferComplete st' \<noteq> 0 \<longleftrightarrow> primaryCmdBuffers st \<noteq> [] \<and> pendingUpdates st \<noteq> []) \<and>
     (transferComplete st' \<noteq> 0 \<longrightarrow>
        handleCounter st < transferComplete st' \<and>
        CreateSemaphore (transferComplete st') \<in> set (newEvents st st') \<and>
        pendingUpdates st' = []) \<and>
     (\<exists>mid c.
        st' = (if primaryCmdBuffers st = [] then mid else recycle sg mid) \<and>
        executedCleanups (newEvents st mid) = [] \<and>
        (fence, c) \<in> set (recycler mid) \<and>
        (transferComplete st \<noteq> 0 \<longrightarrow> DestroySemaphore (transferComplete st) \<in> set c) \<and>
        (\<not> sg fence \<longrightarrow> (fence, c) \<in> set (recycler st')))"
proof (cases "primaryCmdBuffers st = []")
  case True
  from assms draw_empty [OF True, of sem fence sg]
  have st': "st' = st\<lparr>transferComplete := 0,
             dumpster := [],
             recycler := recycler st @
               [(fence, concat (dumpster st) @ [ClearSubmitFence (currentBuffer st)]
                        @ (if transferComplete st \<noteq> 0 then [DestroySemaphore (transferComplete st)] else []))],
             handleCounter := (if pendingUpdates st \<noteq> [] then Suc (handleCounter st) else handleCounter st),
             trace := trace st @
               (if pendingUpdates st \<noteq> [] then [CreateSemaphore (Suc (handleCounter st))] else [])\<rparr>"
    by simp
  have a: "transferComplete st' = 0" by (simp add: st')
  have "executedCleanups (newEvents st st') = [] \<and>
        (fence, concat (dumpster st) @ [ClearSubmitFence (currentBuffer st)]
                @ (if transferComplete st \<noteq> 0 then [DestroySemaphore (transferComplete st)] else []))
          \<in> set (recycler st')"
    by (simp add: st' newEvents_def)
  then have "\<exists>mid c.
        st' = (if primaryCmdBuffers st = [] then mid else recycle sg mid) \<and>
        executedCleanups (newEvents st mid) = [] \<and>
        (fence, c) \<in> set (recycler mid) \<and>
        (transferComplete st \<noteq> 0 \<longrightarrow> DestroySemaphore (transferComplete st) \<in> set c) \<and>
        (\<not> sg fence \<longrightarrow> (fence, c) \<in> set (recycler st'))"
    using True
    by (intro exI [of _ st'] exI [of _ "concat (dumpster st) @ [ClearSubmitFence (currentBuffer st)]
                @ (if transferComplete st \<noteq> 0 then [DestroySemaphore (transferComplete st)] else [])"])
       simp
  with a True show ?thesis by simp
next
  case False
  have inr: "currentBuffer st < length (primaryCmdBuffers st)"
    using assms draw_out_of_range [OF False, of sem fence sg] by (cases "currentBuffer st < length (primaryCmdBuffers st)") auto
  let ?c = "concat (dumpster st) @ [ClearSubmitFence (currentBuffer st)]
                @ (if transferComplete st \<noteq> 0 then [DestroySemaphore (transferComplete st)] else [])"
  show ?thesis
  proof (cases "pendingUpdates st = []")
    case True
    let ?mid = "st\<lparr>transferComplete := 0,
             dumpster := [],
             recycler := recycler st @ [(fence, ?c)],
             trace := trace st @
               [QueueSubmit \<lparr>waitSemaphores = (if sem = 0 then acquireComplete st else sem) #
                               (if transferComplete st \<noteq> 0 then [transferComplete st] else []),
                             waitDstStageMask = SubmitPipelineStages #
                               (if transferComplete st \<noteq> 0 then [StageTransfer] else []),
                             signalSemaphores = [renderComplete st],
                             commandBuffers = [primaryCmdBuffers st ! currentBuffer st]\<rparr> fence]\<rparr>"
    from assms draw_submit_idle [OF False inr True, of sem fence sg]
    have st': "st' = recycle sg ?mid" by simp
    have a: "transferComplete st' = 0" by (simp add: st' recycle_fields)
    have k: "\<not> sg fence \<longrightarrow> (fence, ?c) \<in> set (recycler st')"
      by (auto simp: st' recycle_recycler intro!: recycleScan_kept)
    have "\<exists>mid c.
        st' = (if primaryCmdBuffers st = [] then mid else recycle sg mid) \<and>
        executedCleanups (newEvents st mid) = [] \<and>
        (fence, c) \<in> set (recycler mid) \<and>
        (transferComplete st \<noteq> 0 \<longrightarrow> DestroySemaphore (transferComplete st) \<in> set c) \<and>
        (\<not> sg fence \<longrightarrow> (fence, c) \<in> set (recycler st'))"
      using False st' k
      by (intro exI [of _ ?mid] exI [of _ ?c]) (simp add: newEvents_def)
    with a True show ?thesis by simp
  next
    case pend: False
    let ?mid = "st\<lparr>transferComplete := handleCounter st + 3,
             dumpster := [],
             pendingUpdates := [],
             handleCounter := handleCounter st + 4,
             recycler := recycler st @ [(fence, ?c),
               (handleCounter st + 2,
                [DestroySemaphore (handleCounter st + 1), FreeCommandBuffers [handleCounter st + 4]])],
             trace := trace st @
               [CreateSemaphore (handleCounter st + 1),
                QueueSubmit \<lparr>waitSemaphores = (if sem = 0 then acquireComplete st else sem) #
                               (if transferComplete st \<noteq> 0 then [transferComplete st] else []),
                             waitDstStageMask = SubmitPipelineStages #
                               (if transferComplete st \<noteq> 0 then [StageTransfer] else []),
                             signalSemaphores = [renderComplete st, handleCounter st + 1],
                             commandBuffers = [primaryCmdBuffers st ! currentBuffer st]\<rparr> fence,
                CreateFence (handleCounter st + 2), CreateSemaphore (handleCounter st + 3),
                AllocateCommandBuffers Primary [handleCounter st + 4],
                CmdBegin (handleCounter st + 4) OneTimeSubmit 0]
               @ map (CmdUpdateBuffer (handleCounter st + 4)) (pendingUpdates st)
               @ [CmdEnd (handleCounter st + 4),
                  QueueSubmit \<lparr>waitSemaphores = [handleCounter st + 1],
                               waitDstStageMask = [StageAllCommands],
                               signalSemaphores = [handleCounter st + 3],
                               commandBuffers = [handleCounter st + 4]\<rparr> (handleCounter st + 2)]\<rparr>"
    from assms draw_submit_flush [OF False inr pend, of sem fence sg]
    have st': "st' = recycle sg ?mid" by simp
    have a: "transferComplete st' = handleCounter st + 3" "pendingUpdates st' = []"
      by (simp_all add: st' recycle_fields)
    have b: "CreateSemaphore (handleCounter st + 3) \<in> set (newEvents st st')"
      by (simp add: st' newEvents_def recycle_trace)
    have k: "\<not> sg fence \<longrightarrow> (fence, ?c) \<in> set (recycler st')"
      by (auto simp: st' recycle_recycler intro!: recycleScan_kept)
    have "\<exists>mid c.
        st' = (if primaryCmdBuffers st = [] then mid else recycle sg mid) \<and>
        executedCleanups (newEvents st mid) = [] \<and>
        (fence, c) \<in> set (recycler mid) \<and>
        (transferComplete st \<noteq> 0 \<longrightarrow> DestroySemaphore (transferComplete st) \<in> set c) \<and>
        (\<not> sg fence \<longrightarrow> (fence, c) \<in> set (recycler st'))"
      using False st' k
      by (intro exI [of _ ?mid] exI [of _ ?c]) (simp add: newEvents_def)
    with a b pend False show ?thesis by simp
  qed
qed

theorem transferComplete_handover_witness:
  "(\<exists>st'. drawCurrentCommandBuffer 0 20 (\<lambda>h. False) readyApp = Inr st' \<and>
      transferComplete readyApp = 7 \<and> transferComplete st' = 12 \<and>
      CreateSemaphore 12 \<in> set (newEvents readyApp st') \<and> pendingUpdates st' = [] \<and>
      (20, [ClearSubmitFence 0, DestroySemaphore 7]) \<in> set (recycler st'))"
proof -
  obtain st' where r: "drawCurrentCommandBuffer 0 20 (\<lambda>h. False) readyApp = Inr st'"
    using submissions_frame [of readyApp 0 20 "\<lambda>h. False"]
    by (auto simp: readyApp_def sampleApp_def)
  have v: "transferComplete st' = 12" "(20, [ClearSubmitFence 0, DestroySemaphore 7]) \<in> set (recycler st')"
    using r
    by (auto simp: readyApp_def sampleApp_def sampleUpdates_def drawCurrentCommandBuffer_def
        executePendingTransfers_def emptyDumpster_def createSemaphore_def createFence_def
        allocateCommandBuffers_def emit_def recycle_def Let_def)
  from transferComplete_handover [OF r] v show ?thesis
    using r by (auto simp: readyApp_def sampleApp_def)
qed

text \<open>
  Claim C1, against the reclaimer as the spec describes it. Trashing makes no device call;
  \<^verbatim>\<open>emptyDumpster\<close> pairs the dumpster with the fence; while that fence reads
  unsignaled, \<^verbatim>\<open>recycle\<close> makes the same calls as if the entry were not there and
  keeps the entry; every cleanup \<^verbatim>\<open>recycle\<close> executes belongs to an entry whose fence
  reads signaled, and every entry with an unsignaled fence is kept. The closure that
  \<^verbatim>\<open>executePendingTransfers\<close> registers (destroy the pending semaphore, free the
  transfer command buffer) is paired with the transfer fence and treated the same way.
\<close>

theorem deferred_destruction_guarded_by_fence:
  "(bufs \<noteq> [] \<longrightarrow> dumpster (trashCommandBuffers bufs st) = dumpster st @ [[FreeCommandBuffers bufs]]
       \<and> newEvents st (trashCommandBuffers bufs st) = []) \<and>
   recycler (emptyDumpster fence st) = recycler st @ [(fence, concat (dumpster st))] \<and>
   (\<not> sg fence \<longrightarrow>
      newEvents (emptyDumpster fence st) (recycle sg (emptyDumpster fence st)) = newEvents st (recycle sg st) \<and>
      recycler (recycle sg (emptyDumpster fence st)) =
        recycler (recycle sg st) @ [(fence, concat (dumpster st))]) \<and>
   (\<forall>a. a \<in> set (executedCleanups (newEvents st (recycle sg st))) \<longrightarrow>
      (\<exists>f c. (f, c) \<in> set (recycler st) \<and> sg f \<and> a \<in> set c)) \<and>
   (\<forall>f c. (f, c) \<in> set (recycler st) \<and> \<not> sg f \<longrightarrow> (f, c) \<in> set (recycler (recycle sg st))) \<and>
   (pendingUpdates st \<noteq> [] \<and> transferPending \<noteq> 0 \<longrightarrow>
      (\<exists>st'. executePendingTransfers transferPending st = Inr st' \<and>
         recycler st' = recycler st @
           [(handleCounter st + 1,
             [DestroySemaphore transferPending, FreeCommandBuffers [handleCounter st + 3]])] \<and>
         (\<not> sg (handleCounter st + 1) \<longrightarrow>
            newEvents st' (recycle sg st') = newEvents st (recycle sg st) \<and>
            recycler (recycle sg st') = recycler (recycle sg st) @
              [(handleCounter st + 1,
                [DestroySemaphore transferPending, FreeCommandBuffers [handleCounter st + 3]])])))"
proof (intro conjI impI allI)
  assume "bufs \<noteq> []"
  then show "dumpster (trashCommandBuffers bufs st) = dumpster st @ [[FreeCommandBuffers bufs]]"
    and "newEvents st (trashCommandBuffers bufs st) = []"
    by (simp_all add: trashCommandBuffers_def newEvents_def)
next
  show "recycler (emptyDumpster fence st) = recycler st @ [(fence, concat (dumpster st))]"
    by (simp add: emptyDumpster_def)
next
  assume "\<not> sg fence"
  then show "newEvents (emptyDumpster fence st) (recycle sg (emptyDumpster fence st)) = newEvents st (recycle sg st)"
    and "recycler (recycle sg (emptyDumpster fence st)) =
        recycler (recycle sg st) @ [(fence, concat (dumpster st))]"
    by (simp_all add: newEvents_def recycle_trace recycle_recycler emptyDumpster_def
          recycleScan_unsignaled_last)
next
  fix a
  assume "a \<in> set (executedCleanups (newEvents st (recycle sg st)))"
  then have "a \<in> set (executedCleanups (fst (recycleScan sg (recycler st))))"
    by (simp add: newEvents_def recycle_trace)
  then show "\<exists>f c. (f, c) \<in> set (recycler st) \<and> sg f \<and> a \<in> set c"
    by (rule recycleScan_executed)
next
  fix f c
  assume "(f, c) \<in> set (recycler st) \<and> \<not> sg f"
  then show "(f, c) \<in> set (recycler (recycle sg st))"
    by (simp add: recycle_recycler recycleScan_kept)
next
  assume h: "pendingUpdates st \<noteq> [] \<and> transferPending \<noteq> 0"
  then have e: "executePendingTransfers transferPending st = Inr (st\<lparr>transferComplete := handleCounter st + 2,
             handleCounter := handleCounter st + 3,
             pendingUpdates := [],
             recycler := recycler st @
               [(handleCounter st + 1, [DestroySemaphore transferPending, FreeCommandBuffers [handleCounter st + 3]])],
             trace := trace st @
        [CreateFence (handleCounter st + 1), CreateSemaphore (handleCounter st + 2),
         AllocateCommandBuffers Primary [handleCounter st + 3],
         CmdBegin (handleCounter st + 3) OneTimeSubmit 0]
        @ map (CmdUpdateBuffer (handleCounter st + 3)) (pendingUpdates st)
        @ [CmdEnd (handleCounter st + 3),
           QueueSubmit \<lparr>waitSemaphores = [transferPending], waitDstStageMask = [StageAllCommands],
                        signalSemaphores = [handleCounter st + 2],
                        commandBuffers = [handleCounter st + 3]\<rparr> (handleCounter st + 1)]\<rparr>)"
    by (simp add: exec_nonempty)
  show "\<exists>st'. executePendingTransfers transferPending st = Inr st' \<and>
         recycler st' = recycler st @
           [(handleCounter st + 1,
             [DestroySemaphore transferPending, FreeCommandBuffers [handleCounter st + 3]])] \<and>
         (\<not> sg (handleCounter st + 1) \<longrightarrow>
            newEvents st' (recycle sg st') = newEvents st (recycle sg st) \<and>
            recycler (recycle sg st') = recycler (recycle sg st) @
              [(handleCounter st + 1,
                [DestroySemaphore transferPending, FreeCommandBuffers [handleCounter st + 3]])])"
    by (simp add: e newEvents_def recycle_trace recycle_recycler recycleScan_unsignaled_last)
qed

theorem deferred_destruction_guarded_by_fence_witness:
  "[5, 6] \<noteq> ([]::handle list) \<and> (50::handle) \<noteq> 30 \<and> handleCounter queuedApp + 1 \<noteq> 30 \<and>
   pendingUpdates queuedApp \<noteq> [] \<and> (7::nat) \<noteq> 0 \<and>
   executedCleanups (newEvents (emptyDumpster 50 (trashCommandBuffers [5, 6] queuedApp))
      (recycle (\<lambda>h. h = 30) (emptyDumpster 50 (trashCommandBuffers [5, 6] queuedApp)))) = [DestroySemaphore 31] \<and>
   recycler (recycle (\<lambda>h. h = 30) (emptyDumpster 50 (trashCommandBuffers [5, 6] queuedApp))) =
     [(32, [FreeCommandBuffers [33]]), (50, [ClearSubmitFence 1, FreeCommandBuffers [5, 6]])] \<and>
   (\<exists>st'. executePendingTransfers 7 queuedApp = Inr st' \<and>
      recycler (recycle (\<lambda>h. h = 30) st') =
        [(32, [FreeCommandBuffers [33]]), (41, [DestroySemaphore 7, FreeCommandBuffers [43]])] \<and>
      executedCleanups (newEvents st' (recycle (\<lambda>h. h = 30) st')) = [DestroySemaphore 31])"
proof -
  let ?sg = "\<lambda>h::handle. h = 30"
  let ?T = "trashCommandBuffers [5, 6] queuedApp"
  have ns: "(50::nat) \<noteq> 30" "(7::nat) \<noteq> 0" by simp_all
  have hc: "handleCounter queuedApp = 40" "pendingUpdates queuedApp \<noteq> []"
    by (simp_all add: queuedApp_def sampleApp_def sampleUpdates_def)
  have nf: "handleCounter queuedApp + 1 \<noteq> 30" by (simp add: hc)
  have n: "newEvents queuedApp (recycle ?sg queuedApp) = [Executed (DestroySemaphore 31), ResetFence 30]"
    by (simp add: newEvents_def recycle_trace queuedApp_def sampleApp_def)
  have rq: "recycler (recycle ?sg queuedApp) = [(32, [FreeCommandBuffers [33]])]"
    by (simp add: recycle_recycler queuedApp_def sampleApp_def)
  have n2: "newEvents ?T (recycle ?sg ?T) = [Executed (DestroySemaphore 31), ResetFence 30]"
    by (simp add: newEvents_def recycle_trace trashCommandBuffers_def queuedApp_def sampleApp_def)
  have r2: "recycler (recycle ?sg ?T) = [(32, [FreeCommandBuffers [33]])]"
    by (simp add: recycle_recycler trashCommandBuffers_def queuedApp_def sampleApp_def)
  have d: "concat (dumpster ?T) = [ClearSubmitFence 1, FreeCommandBuffers [5, 6]]"
    by (simp add: trashCommandBuffers_def queuedApp_def sampleApp_def)
  from deferred_destruction_guarded_by_fence [of "[5, 6]" ?T 50 ?sg 0] ns
  have "newEvents (emptyDumpster 50 ?T) (recycle ?sg (emptyDumpster 50 ?T)) = newEvents ?T (recycle ?sg ?T)
      \<and> recycler (recycle ?sg (emptyDumpster 50 ?T)) = recycler (recycle ?sg ?T) @ [(50, concat (dumpster ?T))]"
    by blast
  then have A: "executedCleanups (newEvents (emptyDumpster 50 ?T) (recycle ?sg (emptyDumpster 50 ?T)))
        = [DestroySemaphore 31]"
    "recycler (recycle ?sg (emptyDumpster 50 ?T)) =
     [(32, [FreeCommandBuffers [33]]), (50, [ClearSubmitFence 1, FreeCommandBuffers [5, 6]])]"
    by (simp_all only: n2 r2 d executedCleanups.simps append.simps)
  from deferred_destruction_guarded_by_fence [of "[5, 6]" queuedApp 50 ?sg 7] ns hc(2) nf
  obtain st' where e: "executePendingTransfers 7 queuedApp = Inr st'"
    and k: "newEvents st' (recycle ?sg st') = newEvents queuedApp (recycle ?sg queuedApp)"
      "recycler (recycle ?sg st') = recycler (recycle ?sg queuedApp) @
         [(handleCounter queuedApp + 1, [DestroySemaphore 7, FreeCommandBuffers [handleCounter queuedApp + 3]])]"
    by blast
  have B: "\<exists>st'. executePendingTransfers 7 queuedApp = Inr st' \<and>
      recycler (recycle ?sg st') =
        [(32, [FreeCommandBuffers [33]]), (41, [DestroySemaphore 7, FreeCommandBuffers [43]])] \<and>
      executedCleanups (newEvents st' (recycle ?sg st')) = [DestroySemaphore 31]"
    using e k by (simp add: n rq hc)
  from A B hc show ?thesis by simp
qed

text \<open>
  Claim C6. With no draw command buffers \<^verbatim>\<open>buildCommandBuffers\<close> throws, and it does so
  in the state in which it was called: no primary buffer has been allocated, reset or
  recorded, and no call has been made.
\<close>

theorem buildCommandBuffers_without_draw_buffers:
  assumes "drawCmdBuffers st = []"
  shows "buildCommandBuffers st =
           Inl (RuntimeError ''Draw command buffers have not been populated.'', st)"
  using assms by (simp add: buildCommandBuffers_def)

theorem buildCommandBuffers_without_draw_buffers_witness:
  "drawCmdBuffers sampleApp = [] \<and>
   buildCommandBuffers sampleApp =
     Inl (RuntimeError ''Draw command buffers have not been populated.'', sampleApp)"
proof -
  have h: "drawCmdBuffers sampleApp = []" by (simp add: sampleApp_def)
  from h buildCommandBuffers_without_draw_buffers [OF h] show ?thesis by (rule conjI)
qed

text \<open>
  Claim C2. When \<^verbatim>\<open>buildCommandBuffers\<close> does not throw at once, the first call it
  makes is \<^verbatim>\<open>queue.waitIdle()\<close>, and nothing is submitted after it: every reset, begin
  and recording of a primary command buffer follows the idle wait, with no submission in
  between. When it returns, the primary buffer of every image index below the image count
  has been reset, begun and ended among those calls. When it throws for lack of draw
  buffers it makes no call at all.
\<close>

theorem rebuild_after_queue_idle:
  "(drawCmdBuffers st = [] \<longrightarrow> newEvents st (stateOf (buildCommandBuffers st)) = []) \<and>
   (drawCmdBuffers st \<noteq> [] \<longrightarrow>
      (\<exists>es. newEvents st (stateOf (buildCommandBuffers st)) = QueueWaitIdle # es \<and>
          submissions es = [] \<and>
          (returned (buildCommandBuffers st) \<longrightarrow>
            (\<forall>i<imageCount st.
               i < length (primaryCmdBuffers (stateOf (buildCommandBuffers st))) \<and>
               CmdReset (primaryCmdBuffers (stateOf (buildCommandBuffers st)) ! i) \<in> set es \<and>
               CmdBegin (primaryCmdBuffers (stateOf (buildCommandBuffers st)) ! i) NoUsage 0 \<in> set es \<and>
               CmdEnd (primaryCmdBuffers (stateOf (buildCommandBuffers st)) ! i) \<in> set es))))"
proof (intro conjI impI)
  assume "drawCmdBuffers st = []"
  then show "newEvents st (stateOf (buildCommandBuffers st)) = []"
    by (simp add: buildCommandBuffers_def stateOf_def newEvents_def)
next
  assume "drawCmdBuffers st \<noteq> []"
  from build_effect [OF this]
  obtain es where es: "trace (stateOf (buildCommandBuffers st)) = trace st @ QueueWaitIdle # es"
      "submissions es = []"
      "returned (buildCommandBuffers st) \<longrightarrow>
            (\<forall>i<imageCount st.
               i < length (primaryCmdBuffers (stateOf (buildCommandBuffers st))) \<and>
               CmdReset (primaryCmdBuffers (stateOf (buildCommandBuffers st)) ! i) \<in> set es \<and>
               CmdBegin (primaryCmdBuffers (stateOf (buildCommandBuffers st)) ! i) NoUsage 0 \<in> set es \<and>
               CmdEnd (primaryCmdBuffers (stateOf (buildCommandBuffers st)) ! i) \<in> set es)"
    by blast
  from es(1) have "newEvents st (stateOf (buildCommandBuffers st)) = QueueWaitIdle # es"
    by (rule newEvents_append)
  with es(2,3)
  show "\<exists>es. newEvents st (stateOf (buildCommandBuffers st)) = QueueWaitIdle # es \<and>
          submissions es = [] \<and>
          (returned (buildCommandBuffers st) \<longrightarrow>
            (\<forall>i<imageCount st.
               i < length (primaryCmdBuffers (stateOf (buildCommandBuffers st))) \<and>
               CmdReset (primaryCmdBuffers (stateOf (buildCommandBuffers st)) ! i) \<in> set es \<and>
               CmdBegin (primaryCmdBuffers (stateOf (buildCommandBuffers st)) ! i) NoUsage 0 \<in> set es \<and>
               CmdEnd (primaryCmdBuffers (stateOf (buildCommandBuffers st)) ! i) \<in> set es))"
    by blast
qed

theorem rebuild_after_queue_idle_witness:
  "drawCmdBuffers readyApp \<noteq> [] \<and> returned (buildCommandBuffers readyApp) \<and>
   imageCount readyApp = 2 \<and>
   (\<exists>es. newEvents readyApp (stateOf (buildCommandBuffers readyApp)) = QueueWaitIdle # es \<and>
      submissions es = [] \<and>
      CmdReset 5 \<in> set es \<and> CmdBegin 5 NoUsage 0 \<in> set es \<and> CmdEnd 5 \<in> set es \<and>
      CmdReset 6 \<in> set es \<and> CmdBegin 6 NoUsage 0 \<in> set es \<and> CmdEnd 6 \<in> set es)"
proof -
  have h: "drawCmdBuffers readyApp \<noteq> []" "imageCount readyApp = 2"
    by (simp_all add: readyApp_def sampleApp_def)
  have r: "returned (buildCommandBuffers readyApp)"
    by (simp add: build_readyApp returned_def)
  have p: "primaryCmdBuffers (stateOf (buildCommandBuffers readyApp)) = [5, 6]"
    by (simp add: build_readyApp stateOf_def) (simp add: readyApp_def)
  from rebuild_after_queue_idle [of readyApp] h r
  obtain es where es: "newEvents readyApp (stateOf (buildCommandBuffers readyApp)) = QueueWaitIdle # es"
      "submissions es = []"
      "\<forall>i<2. i < length (primaryCmdBuffers (stateOf (buildCommandBuffers readyApp))) \<and>
               CmdReset (primaryCmdBuffers (stateOf (buildCommandBuffers readyApp)) ! i) \<in> set es \<and>
               CmdBegin (primaryCmdBuffers (stateOf (buildCommandBuffers readyApp)) ! i) NoUsage 0 \<in> set es \<and>
               CmdEnd (primaryCmdBuffers (stateOf (buildCommandBuffers readyApp)) ! i) \<in> set es"
    by auto
  have "CmdReset ([5, 6] ! 0) \<in> set es \<and> CmdBegin ([5, 6] ! 0) NoUsage 0 \<in> set es \<and> CmdEnd ([5, 6] ! 0) \<in> set es
     \<and> CmdReset ([5, 6] ! 1) \<in> set es \<and> CmdBegin ([5, 6] ! 1) NoUsage 0 \<in> set es \<and> CmdEnd ([5, 6] ! 1) \<in> set es"
    using es(3) [rule_format, of 0] es(3) [rule_format, of 1] unfolding p by simp
  then have "CmdReset 5 \<in> set es \<and> CmdBegin 5 NoUsage 0 \<in> set es \<and> CmdEnd 5 \<in> set es \<and>
      CmdReset 6 \<in> set es \<and> CmdBegin 6 NoUsage 0 \<in> set es \<and> CmdEnd 6 \<in> set es"
    by simp
  with es h r show ?thesis by blast
qed

text \<open>
  Claim C7, amended. \<^verbatim>\<open>updateDrawCommandBuffers\<close> leaves the dirty flag set whatever
  the callback records; \<^verbatim>\<open>buildCommandBuffers\<close> clears it. With the flag set,
  \<^verbatim>\<open>prepareFrame\<close> is \<^verbatim>\<open>buildCommandBuffers\<close> followed by the acquisition of
  the next image: its first call is the idle wait, nothing is submitted after it, and when
  it returns the flag is clear and the primary buffer of every image index below the image
  count has been reset, begun and ended after the wait. With the flag clear it only
  acquires the next image and leaves the primary buffers and the flag as they are.
\<close>

theorem updateDrawCommandBuffers_marks_dirty:
  "(\<forall>st'. updateDrawCommandBuffers f st = Inr st' \<longrightarrow> primaryCmdBuffersDirty st') \<and>
   (\<forall>st'. buildCommandBuffers st = Inr st' \<longrightarrow> \<not> primaryCmdBuffersDirty st') \<and>
   (primaryCmdBuffersDirty st \<longrightarrow>
      prepareFrame acq st =
        (case buildCommandBuffers st of
           Inl e \<Rightarrow> Inl e
         | Inr st1 \<Rightarrow>
             (case acq of
                Inl err \<Rightarrow> Inl (err, emit [AcquireNextImage (acquireComplete st1)] st1)
              | Inr i \<Rightarrow> Inr ((emit [AcquireNextImage (acquireComplete st1)] st1)\<lparr>currentBuffer := i\<rparr>)))) \<and>
   (primaryCmdBuffersDirty st \<and> drawCmdBuffers st \<noteq> [] \<longrightarrow>
      (\<exists>es. newEvents st (stateOf (prepareFrame acq st)) = QueueWaitIdle # es \<and>
          submissions es = [] \<and>
          (returned (prepareFrame acq st) \<longrightarrow>
            \<not> primaryCmdBuffersDirty (stateOf (prepareFrame acq st)) \<and>
            (\<forall>i<imageCount st.
               i < length (primaryCmdBuffers (stateOf (prepareFrame acq st))) \<and>
               CmdReset (primaryCmdBuffers (stateOf (prepareFrame acq st)) ! i) \<in> set es \<and>
               CmdBegin (primaryCmdBuffers (stateOf (prepareFrame acq st)) ! i) NoUsage 0 \<in> set es \<and>
               CmdEnd (primaryCmdBuffers (stateOf (prepareFrame acq st)) ! i) \<in> set es)))) \<and>
   (\<not> primaryCmdBuffersDirty st \<longrightarrow>
      newEvents st (stateOf (prepareFrame acq st)) = [AcquireNextImage (acquireComplete st)] \<and>
      primaryCmdBuffers (stateOf (prepareFrame acq st)) = primaryCmdBuffers st \<and>
      \<not> primaryCmdBuffersDirty (stateOf (prepareFrame acq st)))"
proof (intro conjI impI allI)
  fix st' assume "updateDrawCommandBuffers f st = Inr st'"
  then show "primaryCmdBuffersDirty st'" by (rule updateDraw_dirty)
next
  fix st' assume "buildCommandBuffers st = Inr st'"
  then show "\<not> primaryCmdBuffersDirty st'" by (rule build_clean)
next
  assume "primaryCmdBuffersDirty st"
  then show "prepareFrame acq st =
        (case buildCommandBuffers st of
           Inl e \<Rightarrow> Inl e
         | Inr st1 \<Rightarrow>
             (case acq of
                Inl err \<Rightarrow> Inl (err, emit [AcquireNextImage (acquireComplete st1)] st1)
              | Inr i \<Rightarrow> Inr ((emit [AcquireNextImage (acquireComplete st1)] st1)\<lparr>currentBuffer := i\<rparr>)))"
    by (rule prepareFrame_dirty)
next
  assume h: "primaryCmdBuffersDirty st \<and> drawCmdBuffers st \<noteq> []"
  then have a: "primaryCmdBuffersDirty st" and b: "drawCmdBuffers st \<noteq> []" by simp_all
  show "\<exists>es. newEvents st (stateOf (prepareFrame acq st)) = QueueWaitIdle # es \<and>
          submissions es = [] \<and>
          (returned (prepareFrame acq st) \<longrightarrow>
            \<not> primaryCmdBuffersDirty (stateOf (prepareFrame acq st)) \<and>
            (\<forall>i<imageCount st.
               i < length (primaryCmdBuffers (stateOf (prepareFrame acq st))) \<and>
               CmdReset (primaryCmdBuffers (stateOf (prepareFrame acq st)) ! i) \<in> set es \<and>
               CmdBegin (primaryCmdBuffers (stateOf (prepareFrame acq st)) ! i) NoUsage 0 \<in> set es \<and>
               CmdEnd (primaryCmdBuffers (stateOf (prepareFrame acq st)) ! i) \<in> set es))"
    by (rule prepareFrame_rebuilds [OF a b])
next
  assume "\<not> primaryCmdBuffersDirty st"
  then show "newEvents st (stateOf (prepareFrame acq st)) = [AcquireNextImage (acquireComplete st)]"
    and "primaryCmdBuffers (stateOf (prepareFrame acq st)) = primaryCmdBuffers st"
    and "\<not> primaryCmdBuffersDirty (stateOf (prepareFrame acq st))"
    by (simp_all add: prepareFrame_def stateOf_def emit_def newEvents_def Let_def split: sum.splits)
qed

text \<open>
  Claim C7 as written fails: after the draw buffers have been recorded and the primaries
  built (flag clear), recording the same content again sets the flag, and the next
  \<^verbatim>\<open>prepareFrame\<close> waits for the queue and records the primaries again.
\<close>

theorem updateDrawCommandBuffers_unchanged_content_counterexample:
  "\<not> primaryCmdBuffersDirty rebuiltApp \<and>
   returned (updateDrawCommandBuffers sampleContent rebuiltApp) \<and>
   primaryCmdBuffersDirty rerecordedApp \<and>
   returned (prepareFrame (Inr 0) rerecordedApp) \<and>
   take 1 (newEvents rerecordedApp (stateOf (prepareFrame (Inr 0) rerecordedApp))) = [QueueWaitIdle] \<and>
   CmdReset (primaryCmdBuffers (stateOf (prepareFrame (Inr 0) rerecordedApp)) ! 0)
     \<in> set (newEvents rerecordedApp (stateOf (prepareFrame (Inr 0) rerecordedApp)))"
proof -
  have a: "\<not> primaryCmdBuffersDirty rebuiltApp" by (simp add: rebuiltApp_eq)
  have b: "returned (updateDrawCommandBuffers sampleContent rebuiltApp)"
    by (simp add: update_rebuiltApp returned_def)
  have d: "take 1 (newEvents rerecordedApp (stateOf (prepareFrame (Inr 0) rerecordedApp))) = [QueueWaitIdle]"
    "CmdReset (primaryCmdBuffers (stateOf (prepareFrame (Inr 0) rerecordedApp)) ! 0)
       \<in> set (newEvents rerecordedApp (stateOf (prepareFrame (Inr 0) rerecordedApp)))"
    by (simp_all add: rerecordedApp_eq rebuiltApp_eq stateOf_def prepareFrame_def buildCommandBuffers_def
        sampleApp_def trashCommandBuffers_def allocateCommandBuffers_def emit_def recordPrimary_def
        newEvents_def Let_def upt_0_2)
  from a b rerecordedApp_fields(1) prepare_rerecordedApp d show ?thesis by blast
qed

theorem updateDrawCommandBuffers_marks_dirty_witness:
  "returned (updateDrawCommandBuffers sampleContent rebuiltApp) \<and>
   primaryCmdBuffersDirty (stateOf (updateDrawCommandBuffers sampleContent rebuiltApp)) \<and>
   primaryCmdBuffersDirty rerecordedApp \<and> drawCmdBuffers rerecordedApp \<noteq> [] \<and>
   returned (buildCommandBuffers rerecordedApp) \<and>
   \<not> primaryCmdBuffersDirty (stateOf (buildCommandBuffers rerecordedApp)) \<and>
   returned (prepareFrame (Inr 0) rerecordedApp) \<and>
   \<not> primaryCmdBuffersDirty (stateOf (prepareFrame (Inr 0) rerecordedApp)) \<and>
   (\<exists>es. newEvents rerecordedApp (stateOf (prepareFrame (Inr 0) rerecordedApp)) = QueueWaitIdle # es \<and>
      submissions es = [] \<and>
      CmdReset (primaryCmdBuffers (stateOf (prepareFrame (Inr 0) rerecordedApp)) ! 0) \<in> set es \<and>
      CmdBegin (primaryCmdBuffers (stateOf (prepareFrame (Inr 0) rerecordedApp)) ! 0) NoUsage 0 \<in> set es \<and>
      CmdEnd (primaryCmdBuffers (stateOf (prepareFrame (Inr 0) rerecordedApp)) ! 0) \<in> set es \<and>
      CmdReset (primaryCmdBuffers (stateOf (prepareFrame (Inr 0) rerecordedApp)) ! 1) \<in> set es \<and>
      CmdBegin (primaryCmdBuffers (stateOf (prepareFrame (Inr 0) rerecordedApp)) ! 1) NoUsage 0 \<in> set es \<and>
      CmdEnd (primaryCmdBuffers (stateOf (prepareFrame (Inr 0) rerecordedApp)) ! 1) \<in> set es) \<and>
   \<not> primaryCmdBuffersDirty rebuiltApp \<and>
   newEvents rebuiltApp (stateOf (prepareFrame (Inr 1) rebuiltApp)) = [AcquireNextImage 1] \<and>
   primaryCmdBuffers (stateOf (prepareFrame (Inr 1) rebuiltApp)) = primaryCmdBuffers rebuiltApp"
proof -
  let ?P = "primaryCmdBuffers (stateOf (prepareFrame (Inr 0) rerecordedApp))"
  have b: "returned (updateDrawCommandBuffers sampleContent rebuiltApp)"
    by (simp add: update_rebuiltApp returned_def)
  then obtain s where s: "updateDrawCommandBuffers sampleContent rebuiltApp = Inr s"
    by (cases "updateDrawCommandBuffers sampleContent rebuiltApp") (simp_all add: returned_def)
  from build_rerecordedApp obtain s2 where s2: "buildCommandBuffers rerecordedApp = Inr s2"
    by (cases "buildCommandBuffers rerecordedApp") (simp_all add: returned_def)
  have a: "\<not> primaryCmdBuffersDirty rebuiltApp" "acquireComplete rebuiltApp = 1"
    by (simp_all add: rebuiltApp_eq) (simp_all add: sampleApp_def)
  from updateDrawCommandBuffers_marks_dirty [of sampleContent rebuiltApp "Inr 1"] s
  have 1: "primaryCmdBuffersDirty (stateOf (updateDrawCommandBuffers sampleContent rebuiltApp))"
    by (simp add: stateOf_def)
  note inst = updateDrawCommandBuffers_marks_dirty [of sampleContent rerecordedApp "Inr 0"]
  from inst s2
  have 2: "\<not> primaryCmdBuffersDirty (stateOf (buildCommandBuffers rerecordedApp))"
    by (simp add: stateOf_def)
  from inst rerecordedApp_fields(1,2) prepare_rerecordedApp
  obtain es where es: "newEvents rerecordedApp (stateOf (prepareFrame (Inr 0) rerecordedApp)) = QueueWaitIdle # es"
      "submissions es = []"
      "\<not> primaryCmdBuffersDirty (stateOf (prepareFrame (Inr 0) rerecordedApp))"
      "\<forall>i<imageCount rerecordedApp. i < length ?P \<and>
         CmdReset (?P ! i) \<in> set es \<and> CmdBegin (?P ! i) NoUsage 0 \<in> set es \<and> CmdEnd (?P ! i) \<in> set es"
    by blast
  have i0: "0 < imageCount rerecordedApp" and i1: "1 < imageCount rerecordedApp"
    by (simp_all add: rerecordedApp_fields)
  from es(4) [rule_format, OF i0] es(4) [rule_format, OF i1] es(1,2)
  have 3: "\<exists>es. newEvents rerecordedApp (stateOf (prepareFrame (Inr 0) rerecordedApp)) = QueueWaitIdle # es \<and>
      submissions es = [] \<and>
      CmdReset (?P ! 0) \<in> set es \<and> CmdBegin (?P ! 0) NoUsage 0 \<in> set es \<and> CmdEnd (?P ! 0) \<in> set es \<and>
      CmdReset (?P ! 1) \<in> set es \<and> CmdBegin (?P ! 1) NoUsage 0 \<in> set es \<and> CmdEnd (?P ! 1) \<in> set es"
    by blast
  from updateDrawCommandBuffers_marks_dirty [of sampleContent rebuiltApp "Inr 1"] a
  have 4: "newEvents rebuiltApp (stateOf (prepareFrame (Inr 1) rebuiltApp)) = [AcquireNextImage 1]"
    "primaryCmdBuffers (stateOf (prepareFrame (Inr 1) rebuiltApp)) = primaryCmdBuffers rebuiltApp"
    by simp_all
  from b 1 rerecordedApp_fields(1,2) build_rerecordedApp 2 prepare_rerecordedApp es(3) 3 a(1) 4
  show ?thesis by blast
qed

text \<open>
  Claim C8. When \<^verbatim>\<open>run\<close> returns, \<^verbatim>\<open>quit\<close> is set, the last calls made are the
  closing of the window, \<^verbatim>\<open>queue.waitIdle()\<close> and \<^verbatim>\<open>device.waitIdle()\<close>, in this
  order, and everything the destructor releases comes after them. The loop runs until the
  quit signal: when the signal first arrives in round \<open>k\<close> and no round stops with an
  error, the loop makes exactly the rounds 0 to \<open>k\<close> (the flag is tested at the head of
  the loop, so the round that polls the signal is completed) and \<^verbatim>\<open>run\<close> returns.
  Whenever the signal arrives in some round, \<^verbatim>\<open>run\<close> ends.
\<close>

theorem render_loop_until_quit_then_idle:
  "(\<forall>st'. run prep f env st = Some (Inr st') \<longrightarrow>
       quit st' \<and>
       (\<exists>es. trace st' = es @ [SDLDestroyWindow, SDLQuit, QueueWaitIdle, DeviceWaitIdle]) \<and>
       (\<exists>rel. trace (destructor st') = trace st' @ Released SwapChain # rel)) \<and>
   (\<forall>s0 s1 k. prep st = Inr s0 \<and> \<not> quit s0 \<and>
       (\<forall>j<k. \<not> quitSignal (sdlEvents (env j))) \<and> quitSignal (sdlEvents (env k)) \<and>
       rounds f env 0 (Suc k) s0 = Inr s1 \<longrightarrow>
       run prep f env st =
         Some (Inr (emit [QueueWaitIdle, DeviceWaitIdle] (emit [SDLDestroyWindow, SDLQuit] s1)))) \<and>
   ((\<exists>k. quitSignal (sdlEvents (env k))) \<longrightarrow> (\<exists>r. run prep f env st = Some r))"
proof (intro conjI allI impI)
  fix st' assume r: "run prep f env st = Some (Inr st')"
  then obtain s0 where p: "prep st = Inr s0"
    by (cases "prep st") (auto simp: run_def)
  from r p obtain s2 where l: "renderLoop f env s0 = Some (Inr s2)"
      and st': "st' = emit [QueueWaitIdle, DeviceWaitIdle] s2"
    by (auto simp: run_def split: option.splits sum.splits)
  from l obtain s1 where w: "whileNotQuit f env 0 s0 = Some (Inr s1)"
      and s2: "s2 = emit [SDLDestroyWindow, SDLQuit] s1"
    by (auto simp: renderLoop_def split: option.splits sum.splits)
  from whileNotQuit_quit [OF w] have "quit s1" by simp
  then show "quit st'" by (simp add: st' s2 emit_def)
  show "\<exists>es. trace st' = es @ [SDLDestroyWindow, SDLQuit, QueueWaitIdle, DeviceWaitIdle]"
    by (simp add: st' s2 emit_def)
  show "\<exists>rel. trace (destructor st') = trace st' @ Released SwapChain # rel"
    by (rule destructor_trace)
next
  fix s0 s1 k
  assume h: "prep st = Inr s0 \<and> \<not> quit s0 \<and>
       (\<forall>j<k. \<not> quitSignal (sdlEvents (env j))) \<and> quitSignal (sdlEvents (env k)) \<and>
       rounds f env 0 (Suc k) s0 = Inr s1"
  then have "whileNotQuit f env 0 s0 = Some (Inr s1)"
    using whileNotQuit_rounds [of s0 k env 0 f s1] by simp
  with h show "run prep f env st =
         Some (Inr (emit [QueueWaitIdle, DeviceWaitIdle] (emit [SDLDestroyWindow, SDLQuit] s1)))"
    by (simp add: run_def renderLoop_def)
next
  assume "\<exists>k. quitSignal (sdlEvents (env k))"
  then obtain k where k: "quitSignal (sdlEvents (env (0 + k)))" by auto
  show "\<exists>r. run prep f env st = Some r"
  proof (cases "prep st")
    case (Inl e)
    then show ?thesis by (simp add: run_def)
  next
    case (Inr s0)
    from whileNotQuit_terminates [of env 0 k f s0] k obtain r where "whileNotQuit f env 0 s0 = Some r"
      by blast
    with Inr show ?thesis
      by (cases r) (simp_all add: run_def renderLoop_def)
  qed
qed

theorem render_loop_until_quit_then_idle_witness:
  "\<not> quit sampleApp \<and> \<not> quitSignal (sdlEvents (sampleEnv 0)) \<and>
   quitSignal (sdlEvents (sampleEnv 1)) \<and>
   returned (rounds sampleContent sampleEnv 0 (Suc (Suc 0)) sampleApp) \<and>
   (\<exists>st' es rel. run Inr sampleContent sampleEnv sampleApp = Some (Inr st') \<and> quit st' \<and>
      trace st' = es @ [SDLDestroyWindow, SDLQuit, QueueWaitIdle, DeviceWaitIdle] \<and>
      trace (destructor st') = trace st' @ Released SwapChain # rel)"
proof -
  have q0: "\<not> quit sampleApp" by (simp add: sampleApp_def)
  have e0: "\<not> quitSignal (sdlEvents (sampleEnv 0))" by (simp add: sampleEnv_def quitSignal_def)
  have e1: "quitSignal (sdlEvents (sampleEnv 1))" by (simp add: sampleEnv_def quitSignal_def)
  from frame1_sample obtain s1 where f1: "frame sampleContent (sampleEnv (Suc 0)) afterFirstFrame = Inr s1"
    by (cases "frame sampleContent (sampleEnv 1) afterFirstFrame") (simp_all add: returned_def)
  have r: "rounds sampleContent sampleEnv 0 (Suc (Suc 0)) sampleApp = Inr s1"
    by (simp add: frame0_sample f1)
  have all0: "\<forall>j<Suc 0. \<not> quitSignal (sdlEvents (sampleEnv j))" using e0 by simp
  have e1': "quitSignal (sdlEvents (sampleEnv (Suc 0)))" using e1 by simp
  have p: "(Inr :: app \<Rightarrow> outcome) sampleApp = Inr sampleApp" by simp
  note inst = render_loop_until_quit_then_idle [of Inr sampleContent sampleEnv sampleApp]
  from inst p q0 all0 e1' r
  have run: "run Inr sampleContent sampleEnv sampleApp =
         Some (Inr (emit [QueueWaitIdle, DeviceWaitIdle] (emit [SDLDestroyWindow, SDLQuit] s1)))"
    by blast
  from inst run
  have "quit (emit [QueueWaitIdle, DeviceWaitIdle] (emit [SDLDestroyWindow, SDLQuit] s1)) \<and>
       (\<exists>es. trace (emit [QueueWaitIdle, DeviceWaitIdle] (emit [SDLDestroyWindow, SDLQuit] s1))
            = es @ [SDLDestroyWindow, SDLQuit, QueueWaitIdle, DeviceWaitIdle]) \<and>
       (\<exists>rel. trace (destructor (emit [QueueWaitIdle, DeviceWaitIdle] (emit [SDLDestroyWindow, SDLQuit] s1)))
            = trace (emit [QueueWaitIdle, DeviceWaitIdle] (emit [SDLDestroyWindow, SDLQuit] s1))
              @ Released SwapChain # rel)"
    by blast
  with run q0 e0 e1 r show ?thesis by (auto simp: returned_def)
qed

end
